theory Spec2Isabelle
  imports Main "HOL-Library.Word" "HOL-Library.Sublist"
begin

section \<open>Runtime values shared by the backend and the edge\<close>

text \<open>
  The upload pipeline is a Node program. Its pure parts become HOL functions; what it
  does to the temp directory, to the console and to the response object becomes explicit
  state. A thrown JavaScript error is a value of \<open>js_error\<close>, and a statement sequence
  that may throw returns an \<open>outcome\<close> together with the state reached at that point, so
  that a mutation done before the throw survives it, as it does in JavaScript.
\<close>

type_synonym byte = "8 word"

datatype js_error =
    MulterError string string    \<comment> \<open>\<open>new multer.MulterError(code)\<close>: code and message\<close>
  | Error string                 \<comment> \<open>\<open>new Error(message)\<close>\<close>
  | SystemError string string    \<comment> \<open>an \<open>fs\<close> failure: errno code and path\<close>

text \<open>
  \<open>error.message\<close>. Of the text Node gives a failed \<open>fs\<close> call only the code and the
  path are kept.
\<close>

fun error_message :: "js_error \<Rightarrow> string" where
  "error_message (MulterError code msg) = msg"
| "error_message (Error msg) = msg"
| "error_message (SystemError code p) = code @ '': '' @ p"

datatype outcome = Normal | Raised js_error

datatype console_line = ConsoleLog string | ConsoleError string | ConsoleWarn string

subsection \<open>Strings\<close>

definition digit_char :: "nat \<Rightarrow> char" where
  "digit_char d = ''0123456789'' ! (d mod 10)"

text \<open>A non-negative integer inside a template literal: its decimal digits.\<close>

fun dec_str :: "nat \<Rightarrow> string" where
  "dec_str n = (if n < 10 then [digit_char n] else dec_str (n div 10) @ [digit_char (n mod 10)])"

declare dec_str.simps [simp del]

text \<open>\<open>Array.prototype.join\<close> on an array of strings.\<close>

fun join :: "string \<Rightarrow> string list \<Rightarrow> string" where
  "join sep [] = []"
| "join sep [x] = x"
| "join sep (x # y # ys) = x @ sep @ join sep (y # ys)"

text \<open>
  The operator \<open>||\<close> on a string that may be \<open>null\<close> or \<open>undefined\<close>: the empty string
  is falsy as well.
\<close>

fun or_default :: "string option \<Rightarrow> string \<Rightarrow> string" where
  "or_default None d = d"
| "or_default (Some v) d = (if v = [] then d else v)"

subsection \<open>The file system\<close>

text \<open>
  A directory maps a path to a node. A node carries its bytes and two fault flags: whether
  reading it raises (no permission, I/O error) and whether removing it raises (no
  permission, file busy). A path with no node raises \<open>ENOENT\<close> on both calls.
\<close>

record fs_node =
  node_bytes :: "byte list"
  read_fails :: bool
  unlink_fails :: bool

type_synonym filesystem = "string \<Rightarrow> fs_node option"

definition readFileSync :: "filesystem \<Rightarrow> string \<Rightarrow> js_error + byte list" where
  "readFileSync d p =
     (case d p of
        None \<Rightarrow> Inl (SystemError ''ENOENT'' p)
      | Some n \<Rightarrow> if read_fails n then Inl (SystemError ''EACCES'' p) else Inr (node_bytes n))"

definition unlinkSync :: "filesystem \<Rightarrow> string \<Rightarrow> js_error + filesystem" where
  "unlinkSync d p =
     (case d p of
        None \<Rightarrow> Inl (SystemError ''ENOENT'' p)
      | Some n \<Rightarrow> if unlink_fails n then Inl (SystemError ''EPERM'' p) else Inr (d(p := None)))"

section \<open>Backend: signature validation and the upload route\<close>

text \<open>
  A file as the receiving layer hands it to the route (\<open>Express.Multer.File\<close>). The field
  \<open>size\<close> is \<open>file_size\<close> here.
\<close>

record multer_file =
  fieldname :: string
  originalname :: string
  mimetype :: string
  filename :: string
  path :: string
  file_size :: nat

definition PNG_SIGNATURE :: "byte list" where
  "PNG_SIGNATURE = [0x89, 0x50, 0x4E, 0x47, 0x0D, 0x0A, 0x1A, 0x0A]"

definition isPngByBytes :: "byte list \<Rightarrow> bool" where
  "isPngByBytes buffer =
     (if length buffer < length PNG_SIGNATURE then False
      else take (length PNG_SIGNATURE) buffer = PNG_SIGNATURE)"

text \<open>
  The state of one run of the upload route: the uploads directory, the two arrays the
  validation loop fills, and the console. The emoji that starts some console lines is
  left out of the modelled text.
\<close>

record be_state =
  disk :: filesystem
  validFiles :: "multer_file list"
  invalidFiles :: "string list"
  console :: "console_line list"

text \<open>The body of the per-file \<open>try\<close>.\<close>

definition try_block :: "multer_file \<Rightarrow> be_state \<Rightarrow> outcome \<times> be_state" where
  "try_block file s =
     (case readFileSync (disk s) (path file) of
        Inl e \<Rightarrow> (Raised e, s)
      | Inr buffer \<Rightarrow>
          if mimetype file = ''image/png'' then
            if isPngByBytes buffer then
              (Normal, s\<lparr>validFiles := validFiles s @ [file],
                         console := console s @ [ConsoleLog (''Valid PNG file: '' @ originalname file)]\<rparr>)
            else
              (let s1 = s\<lparr>invalidFiles :=
                            invalidFiles s @ [originalname file @ '' - Invalid PNG signature'']\<rparr>
               in case unlinkSync (disk s1) (path file) of
                    Inl e \<Rightarrow> (Raised e, s1)
                  | Inr d \<Rightarrow>
                      (Normal, s1\<lparr>disk := d,
                                  console := console s1 @
                                    [ConsoleLog (''Invalid PNG signature: '' @ originalname file)]\<rparr>))
          else
            (Normal, s\<lparr>validFiles := validFiles s @ [file],
                       console := console s @
                         [ConsoleLog (''Valid image file: '' @ originalname file @
                                      '' ('' @ mimetype file @ '')'')]\<rparr>))"

text \<open>The per-file \<open>catch\<close>, with its own inner \<open>try\<close> around the removal.\<close>

definition catch_block :: "multer_file \<Rightarrow> js_error \<Rightarrow> be_state \<Rightarrow> outcome \<times> be_state" where
  "catch_block file fileError s =
     (let s1 = s\<lparr>console := console s @
                    [ConsoleError (''Error validating file '' @ originalname file @ '':'')],
                  invalidFiles := invalidFiles s @ [originalname file @ '' - Validation error'']\<rparr>
      in case unlinkSync (disk s1) (path file) of
           Inr d \<Rightarrow> (Normal, s1\<lparr>disk := d\<rparr>)
         | Inl cleanupError \<Rightarrow>
             (Normal, s1\<lparr>console := console s1 @
                          [ConsoleWarn (''Failed to cleanup invalid file: '' @ path file)]\<rparr>))"

definition validate_file :: "multer_file \<Rightarrow> be_state \<Rightarrow> outcome \<times> be_state" where
  "validate_file file s =
     (case try_block file s of
        (Normal, s') \<Rightarrow> (Normal, s')
      | (Raised e, s') \<Rightarrow> catch_block file e s')"

text \<open>The \<open>for (const file of files)\<close> loop: a statement that raises ends it.\<close>

fun validate_loop :: "multer_file list \<Rightarrow> be_state \<Rightarrow> outcome \<times> be_state" where
  "validate_loop [] s = (Normal, s)"
| "validate_loop (file # rest) s =
     (case validate_file file s of
        (Normal, s') \<Rightarrow> validate_loop rest s'
      | (Raised e, s') \<Rightarrow> (Raised e, s'))"

subsection \<open>The upload route\<close>

text \<open>
  An entry of the response's \<open>files\<close> array; its properties \<open>id\<close>, \<open>originalName\<close>,
  \<open>filename\<close>, \<open>path\<close>, \<open>size\<close>, \<open>mimetype\<close> and \<open>url\<close> carry the prefix \<open>sf_\<close>. Then
  the response body with its status.
\<close>

record stored_file =
  sf_id :: string
  sf_originalName :: string
  sf_filename :: string
  sf_path :: string
  sf_size :: nat
  sf_mimetype :: string
  sf_url :: string

record upload_response =
  status :: nat
  success :: bool
  message :: string
  files :: "stored_file list option"
  error :: "string option"

text \<open>
  What the route reads of the request: \<open>req.files\<close> (absent when the receiving layer set
  none), \<open>req.protocol\<close> and \<open>req.get('host')\<close>, which is \<open>undefined\<close> without the header.
\<close>

record request =
  req_files :: "multer_file list option"
  protocol :: string
  host :: "string option"

fun template_str :: "string option \<Rightarrow> string" where
  "template_str None = ''undefined''"
| "template_str (Some v) = v"

definition init_state :: "filesystem \<Rightarrow> be_state" where
  "init_state d = \<lparr>disk = d, validFiles = [], invalidFiles = [], console = []\<rparr>"

definition no_files_response :: upload_response where
  "no_files_response =
     \<lparr>status = 400, success = False, message = ''No files uploaded'',
      files = None, error = None\<rparr>"

definition all_invalid_response :: "string list \<Rightarrow> upload_response" where
  "all_invalid_response invalid =
     \<lparr>status = 400, success = False,
      message = ''No valid files uploaded. All files failed validation.'',
      files = None, error = Some (join '', '' invalid)\<rparr>"

text \<open>
  \<open>validFiles.map(file => ({id: uuidv4(), ...}))\<close>: the identifier of the \<open>k\<close>-th accepted
  file is the \<open>k\<close>-th value the generator hands out during the route.
\<close>

definition fileData :: "request \<Rightarrow> (nat \<Rightarrow> string) \<Rightarrow> multer_file list \<Rightarrow> stored_file list" where
  "fileData req uuidv4 valid =
     map (\<lambda>(k, file).
            \<lparr>sf_id = uuidv4 k,
             sf_originalName = originalname file,
             sf_filename = filename file,
             sf_path = path file,
             sf_size = file_size file,
             sf_mimetype = mimetype file,
             sf_url = protocol req @ ''://'' @ template_str (host req) @ ''/uploads/''
                        @ filename file\<rparr>)
         (enumerate 0 valid)"

definition success_response ::
  "request \<Rightarrow> (nat \<Rightarrow> string) \<Rightarrow> multer_file list \<Rightarrow> string list \<Rightarrow> upload_response" where
  "success_response req uuidv4 valid invalid =
     \<lparr>status = 200, success = True,
      message = ''Successfully uploaded '' @ dec_str (length valid) @ '' valid file(s)''
                  @ (if length invalid > 0
                     then ''. '' @ dec_str (length invalid) @ '' file(s) were rejected: ''
                            @ join '', '' invalid
                     else []),
      files = Some (fileData req uuidv4 valid), error = None\<rparr>"

definition internal_error_response :: "js_error \<Rightarrow> upload_response" where
  "internal_error_response e =
     \<lparr>status = 500, success = False, message = ''Internal server error'',
      files = None, error = Some (error_message e)\<rparr>"

text \<open>The body of the route's outer \<open>try\<close>: a response, or the error that reaches its \<open>catch\<close>.\<close>

definition route_try ::
  "request \<Rightarrow> (nat \<Rightarrow> string) \<Rightarrow> be_state \<Rightarrow> (js_error + upload_response) \<times> be_state" where
  "route_try req uuidv4 s =
     (let s0 = s\<lparr>console := console s @ [ConsoleLog ''req :>> '']\<rparr>
      in case req_files req of
           None \<Rightarrow> (Inr no_files_response, s0)
         | Some fs \<Rightarrow>
             if length fs = 0 then (Inr no_files_response, s0)
             else
               (case validate_loop fs s0 of
                  (Raised e, s1) \<Rightarrow> (Inl e, s1)
                | (Normal, s1) \<Rightarrow>
                    if length (validFiles s1) = 0
                    then (Inr (all_invalid_response (invalidFiles s1)), s1)
                    else (Inr (success_response req uuidv4 (validFiles s1) (invalidFiles s1)), s1)))"

definition upload_route ::
  "request \<Rightarrow> (nat \<Rightarrow> string) \<Rightarrow> filesystem \<Rightarrow> upload_response \<times> be_state" where
  "upload_route req uuidv4 d =
     (case route_try req uuidv4 (init_state d) of
        (Inr response, s) \<Rightarrow> (response, s)
      | (Inl e, s) \<Rightarrow>
          (internal_error_response e,
           s\<lparr>console := console s @ [ConsoleError ''Upload error:'']\<rparr>))"

subsection \<open>Admission: the receiving layer and the error middleware\<close>

definition fileFilter :: "multer_file \<Rightarrow> js_error + bool" where
  "fileFilter file =
     (if prefix ''image/'' (mimetype file) then Inr True
      else Inl (Error ''Only image files are allowed!''))"

definition fileSize :: nat where
  "fileSize = 5 * 1024 * 1024"

text \<open>
  Modelled from the spec: the receiving layer is the multer library, which is not among
  the sources. It takes the parts of the request in order, for the one field the route
  names and up to the count the route gives; a part beyond the count (or under another
  field) is refused with the library's error \<open>LIMIT_UNEXPECTED_FILE\<close>, a part the route's
  \<open>fileFilter\<close> refuses with the filter's own error, and a part longer than the route's
  \<open>fileSize\<close> with the library's error \<open>LIMIT_FILE_SIZE\<close>. The first refusal ends the
  request: it goes to the error middleware and the route never runs.
\<close>

fun upload_array :: "string \<Rightarrow> nat \<Rightarrow> multer_file list \<Rightarrow> js_error option" where
  "upload_array name filesLeft [] = None"
| "upload_array name filesLeft (file # rest) =
     (if fieldname file \<noteq> name \<or> filesLeft = 0
      then Some (MulterError ''LIMIT_UNEXPECTED_FILE'' ''Unexpected field'')
      else case fileFilter file of
             Inl e \<Rightarrow> Some e
           | Inr keep \<Rightarrow>
               if fileSize < file_size file
               then Some (MulterError ''LIMIT_FILE_SIZE'' ''File too large'')
               else upload_array name (filesLeft - 1) rest)"

definition error_middleware :: "js_error \<Rightarrow> upload_response" where
  "error_middleware err =
     (let fallthrough =
            \<lparr>status = 500, success = False,
             message = (if error_message err = [] then ''Internal server error''
                        else error_message err),
             files = None, error = None\<rparr>
      in case err of
           MulterError code msg \<Rightarrow>
             if code = ''LIMIT_FILE_SIZE''
             then \<lparr>status = 400, success = False,
                   message = ''File too large. Maximum size is 5MB.'',
                   files = None, error = None\<rparr>
             else fallthrough
         | _ \<Rightarrow> fallthrough)"

text \<open>
  \<open>app.post('/api/upload', upload.array('images', 10), ...)\<close>: the receiving layer first,
  then either the error middleware or the route. A request that is not multipart has no
  \<open>req.files\<close> and goes straight to the route.
\<close>

definition api_upload :: "request \<Rightarrow> (nat \<Rightarrow> string) \<Rightarrow> filesystem \<Rightarrow> upload_response" where
  "api_upload req uuidv4 d =
     (case req_files req of
        None \<Rightarrow> fst (upload_route req uuidv4 d)
      | Some incoming \<Rightarrow>
          (case upload_array ''images'' 10 incoming of
             Some e \<Rightarrow> error_middleware e
           | None \<Rightarrow> fst (upload_route req uuidv4 d)))"

subsection \<open>Generated storage names\<close>

text \<open>
  Modelled from the spec: the original extension of a file name, as Node's
  \<open>path.extname\<close> computes it (POSIX flavour; the function is the runtime's, not among
  the sources): the last segment of the path, trailing slashes dropped, from its last dot
  on; empty when the segment has no dot, when its only dot comes first, and for \<open>..\<close>.
\<close>

definition last_segment :: "string \<Rightarrow> string" where
  "last_segment p =
     rev (takeWhile (\<lambda>c. c \<noteq> CHR ''/'') (dropWhile (\<lambda>c. c = CHR ''/'') (rev p)))"

definition extname :: "string \<Rightarrow> string" where
  "extname p =
     (let base = last_segment p;
          after_dot = takeWhile (\<lambda>c. c \<noteq> CHR ''.'') (rev base);
          startDot = length base - length after_dot - 1
      in if CHR ''.'' \<notin> set base then []
         else if startDot = 0 then []
         else if base = ''..'' then []
         else drop startDot base)"

text \<open>
  The \<open>filename\<close> callback of the disk storage. The token \<open>uuid\<close> is what \<open>uuidv4()\<close>
  returned for this file and \<open>now\<close> is what \<open>Date.now()\<close> returned.
\<close>

definition storage_filename :: "string \<Rightarrow> nat \<Rightarrow> multer_file \<Rightarrow> string" where
  "storage_filename uuid now file = uuid @ ''-'' @ dec_str now @ extname (originalname file)"

section \<open>Edge: capture, relay and cleanup\<close>

text \<open>
  What \<open>form.parse\<close> returns. A field value is an array of strings, a single string or
  \<open>undefined\<close>; a file value is an array of files or a single file, and a file may be
  missing (\<open>undefined\<close>) or lack a property. The entries come in the order
  \<open>Object.entries\<close> lists them.
\<close>

datatype field_value = FieldArray "string list" | FieldSingle string | FieldUndefined

record formidable_file =
  filepath :: "string option"
  originalFilename :: "string option"
  part_mimetype :: "string option"

datatype file_value = FileArray "formidable_file option list" | FileSingle "formidable_file option"

type_synonym parsed_fields = "(string \<times> field_value) list"
type_synonym parsed_files = "(string \<times> file_value) list"

text \<open>
  One appended part of a multipart body: a field (name, value) or a file (field name,
  content, filename, content type). The stream variant appends a read stream, which is
  the path it will read when the body is sent; the buffer variant appends the bytes.
\<close>

datatype 'c form_part = FieldPart string string | FilePart string 'c string string

type_synonym stream_formdata = "string form_part list"
type_synonym blob_formdata = "byte list form_part list"

subsection \<open>Fields (the same code in both variants)\<close>

fun append_values :: "string \<Rightarrow> string list \<Rightarrow> 'c form_part list \<Rightarrow> 'c form_part list" where
  "append_values key [] formData = formData"
| "append_values key (val # vals) formData = append_values key vals (formData @ [FieldPart key val])"

fun append_field :: "'c form_part list \<Rightarrow> string \<times> field_value \<Rightarrow> 'c form_part list" where
  "append_field formData (key, FieldArray vals) = append_values key vals formData"
| "append_field formData (key, FieldSingle val) = formData @ [FieldPart key val]"
| "append_field formData (key, FieldUndefined) = formData"

definition append_fields :: "parsed_fields \<Rightarrow> 'c form_part list \<Rightarrow> 'c form_part list" where
  "append_fields flds formData = foldl append_field formData flds"

fun fileList_of :: "file_value \<Rightarrow> formidable_file option list" where
  "fileList_of (FileArray fileArray) = fileArray"
| "fileList_of (FileSingle file) = [file]"

text \<open>\<open>file && file.filepath\<close>: the path when the test is truthy.\<close>

fun temp_path :: "formidable_file option \<Rightarrow> string option" where
  "temp_path None = None"
| "temp_path (Some file) =
     (case filepath file of
        None \<Rightarrow> None
      | Some p \<Rightarrow> if p = [] then None else Some p)"

subsection \<open>Files, stream variant\<close>

definition append_file_stream ::
  "string \<Rightarrow> nat \<Rightarrow> formidable_file option \<Rightarrow> stream_formdata \<Rightarrow> stream_formdata" where
  "append_file_stream fieldName index file formData =
     (case temp_path file of
        None \<Rightarrow> formData
      | Some p \<Rightarrow>
          formData @
            [FilePart fieldName p
               (or_default (originalFilename (the file)) (''file-'' @ dec_str index))
               (or_default (part_mimetype (the file)) ''application/octet-stream'')])"

fun forEach_file_stream ::
  "string \<Rightarrow> nat \<Rightarrow> formidable_file option list \<Rightarrow> stream_formdata \<Rightarrow> stream_formdata" where
  "forEach_file_stream fieldName index [] formData = formData"
| "forEach_file_stream fieldName index (file # rest) formData =
     forEach_file_stream fieldName (Suc index) rest
       (append_file_stream fieldName index file formData)"

fun append_files_stream :: "parsed_files \<Rightarrow> stream_formdata \<Rightarrow> stream_formdata" where
  "append_files_stream [] formData = formData"
| "append_files_stream ((fieldName, fileArray) # rest) formData =
     append_files_stream rest (forEach_file_stream fieldName 0 (fileList_of fileArray) formData)"

definition build_formdata_stream :: "parsed_fields \<Rightarrow> parsed_files \<Rightarrow> stream_formdata" where
  "build_formdata_stream flds fs = append_files_stream fs (append_fields flds [])"

subsection \<open>Files, buffer variant\<close>

text \<open>
  \<open>new Blob([buffer], {type})\<close> does not keep the type as given: the constructor empties
  a type that has a character outside U+0020 to U+007E and turns every other type to ASCII
  lower case. The part that \<open>formData.append(fieldName, blob, name)\<close> adds carries the
  blob's type.
\<close>

definition ascii_lower :: "char \<Rightarrow> char" where
  "ascii_lower c =
     (case map_of (zip ''ABCDEFGHIJKLMNOPQRSTUVWXYZ'' ''abcdefghijklmnopqrstuvwxyz'') c of
        None \<Rightarrow> c
      | Some l \<Rightarrow> l)"

definition printable :: "char \<Rightarrow> bool" where
  "printable c = (32 \<le> (of_char c :: nat) \<and> (of_char c :: nat) \<le> 126)"

definition blob_type :: "string \<Rightarrow> string" where
  "blob_type t = (if list_all printable t then map ascii_lower t else [])"

text \<open>\<open>fs.readFileSync\<close> may throw here, which leaves both loops.\<close>

fun for_file_blob ::
  "filesystem \<Rightarrow> string \<Rightarrow> nat \<Rightarrow> formidable_file option list \<Rightarrow> blob_formdata
     \<Rightarrow> js_error + blob_formdata" where
  "for_file_blob d fieldName index [] formData = Inr formData"
| "for_file_blob d fieldName index (file # rest) formData =
     (case temp_path file of
        None \<Rightarrow> for_file_blob d fieldName (Suc index) rest formData
      | Some p \<Rightarrow>
          (case readFileSync d p of
             Inl e \<Rightarrow> Inl e
           | Inr buffer \<Rightarrow>
               for_file_blob d fieldName (Suc index) rest
                 (formData @
                    [FilePart fieldName buffer
                       (or_default (originalFilename (the file)) (''file-'' @ dec_str index))
                       (blob_type
                          (or_default (part_mimetype (the file)) ''application/octet-stream''))])))"

fun append_files_blob :: "filesystem \<Rightarrow> parsed_files \<Rightarrow> blob_formdata \<Rightarrow> js_error + blob_formdata" where
  "append_files_blob d [] formData = Inr formData"
| "append_files_blob d ((fieldName, fileArray) # rest) formData =
     (case for_file_blob d fieldName 0 (fileList_of fileArray) formData of
        Inl e \<Rightarrow> Inl e
      | Inr formData' \<Rightarrow> append_files_blob d rest formData')"

definition build_formdata_blob ::
  "filesystem \<Rightarrow> parsed_fields \<Rightarrow> parsed_files \<Rightarrow> js_error + blob_formdata" where
  "build_formdata_blob d flds fs = append_files_blob d fs (append_fields flds [])"

subsection \<open>Sending a body\<close>

text \<open>
  The streams of a stream body are read when the body is sent, in the order of its
  parts; a stream that cannot be read fails the send.
\<close>

fun read_streams :: "filesystem \<Rightarrow> stream_formdata \<Rightarrow> js_error + blob_formdata" where
  "read_streams d [] = Inr []"
| "read_streams d (FieldPart key val # parts) =
     (case read_streams d parts of
        Inl e \<Rightarrow> Inl e
      | Inr sent_parts \<Rightarrow> Inr (FieldPart key val # sent_parts))"
| "read_streams d (FilePart fieldName p name ctype # parts) =
     (case readFileSync d p of
        Inl e \<Rightarrow> Inl e
      | Inr buffer \<Rightarrow>
          (case read_streams d parts of
             Inl e \<Rightarrow> Inl e
           | Inr sent_parts \<Rightarrow> Inr (FilePart fieldName buffer name ctype # sent_parts)))"

text \<open>
  The result of \<open>fetch\<close>: a rejection (network failure), or a response with its status
  and its body read as JSON (\<open>None\<close> when the body is not JSON, which makes
  \<open>response.json()\<close> throw). The backend is a parameter: any function from the body it
  receives to what \<open>fetch\<close> returns.
\<close>

datatype fetch_result = FetchRejected js_error | FetchResponse nat "string option"

type_synonym backend = "blob_formdata \<Rightarrow> fetch_result"

definition response_ok :: "nat \<Rightarrow> bool" where
  "response_ok code = (200 \<le> code \<and> code \<le> 299)"

definition fetch_stream :: "backend \<Rightarrow> filesystem \<Rightarrow> stream_formdata \<Rightarrow> fetch_result" where
  "fetch_stream be d body =
     (case read_streams d body of
        Inl e \<Rightarrow> FetchRejected e
      | Inr payload \<Rightarrow> be payload)"

subsection \<open>State of one edge request\<close>

datatype edge_body =
    BackendJson string               \<comment> \<open>the backend's JSON, passed through\<close>
  | FailureBody string "string option" \<comment> \<open>\<open>{success: false, message, error}\<close>\<close>

record edge_response =
  e_status :: nat
  e_body :: edge_body

text \<open>
  The temp directory, the responses sent so far and the warnings of the cleanup. The
  informational console lines of the edge are left out.
\<close>

record edge_state =
  tmp :: filesystem
  sent :: "edge_response list"
  warnings :: "string list"

definition respond :: "nat \<Rightarrow> edge_body \<Rightarrow> edge_state \<Rightarrow> edge_state" where
  "respond code body st = st\<lparr>sent := sent st @ [\<lparr>e_status = code, e_body = body\<rparr>]\<rparr>"

subsection \<open>Cleanup\<close>

definition cleanup_file :: "formidable_file option \<Rightarrow> edge_state \<Rightarrow> edge_state" where
  "cleanup_file file st =
     (case temp_path file of
        None \<Rightarrow> st
      | Some p \<Rightarrow>
          (case unlinkSync (tmp st) p of
             Inr d \<Rightarrow> st\<lparr>tmp := d\<rparr>
           | Inl cleanupError \<Rightarrow>
               st\<lparr>warnings := warnings st @ [''Failed to cleanup temp file on error: '' @ p]\<rparr>))"

fun cleanupTempFiles :: "formidable_file list \<Rightarrow> edge_state \<Rightarrow> edge_state" where
  "cleanupTempFiles [] st = st"
| "cleanupTempFiles (file # tempFiles) st = cleanupTempFiles tempFiles (cleanup_file (Some file) st)"

text \<open>\<open>Object.values(files).flat().filter(Boolean)\<close>.\<close>

fun filter_Boolean :: "formidable_file option list \<Rightarrow> formidable_file list" where
  "filter_Boolean [] = []"
| "filter_Boolean (None # rest) = filter_Boolean rest"
| "filter_Boolean (Some file # rest) = file # filter_Boolean rest"

definition parsedFiles :: "parsed_files \<Rightarrow> formidable_file list" where
  "parsedFiles fs = filter_Boolean (concat (map (\<lambda>(fieldName, fileArray). fileList_of fileArray) fs))"

subsection \<open>The middleware, in its two variants\<close>

definition middleware_catch :: "js_error \<Rightarrow> edge_state \<Rightarrow> outcome \<times> edge_state" where
  "middleware_catch e st =
     (Normal, respond 500 (FailureBody ''Failed to process form data'' (Some (error_message e))) st)"

text \<open>
  \<open>parsed\<close> is what \<open>await form.parse(req)\<close> gave: the fields and files, or the error it
  threw. \<open>next\<close> is the callback of the handler, run on the body that was built.
\<close>

definition createFormDataMiddleware_stream ::
  "js_error + parsed_fields \<times> parsed_files
     \<Rightarrow> (stream_formdata \<Rightarrow> edge_state \<Rightarrow> outcome \<times> edge_state)
     \<Rightarrow> edge_state \<Rightarrow> outcome \<times> edge_state" where
  "createFormDataMiddleware_stream parsed next st =
     (case parsed of
        Inl e \<Rightarrow> middleware_catch e st
      | Inr (flds, fs) \<Rightarrow>
          (let formData = build_formdata_stream flds fs
           in case next formData st of
                (Raised e, st') \<Rightarrow> middleware_catch e st'
              | (Normal, st') \<Rightarrow> (Normal, cleanupTempFiles (parsedFiles fs) st')))"

definition createFormDataMiddleware_blob ::
  "js_error + parsed_fields \<times> parsed_files
     \<Rightarrow> (blob_formdata \<Rightarrow> edge_state \<Rightarrow> outcome \<times> edge_state)
     \<Rightarrow> edge_state \<Rightarrow> outcome \<times> edge_state" where
  "createFormDataMiddleware_blob parsed next st =
     (case parsed of
        Inl e \<Rightarrow> middleware_catch e st
      | Inr (flds, fs) \<Rightarrow>
          (case build_formdata_blob (tmp st) flds fs of
             Inl e \<Rightarrow> middleware_catch e st
           | Inr formData \<Rightarrow>
               (case next formData st of
                  (Raised e, st') \<Rightarrow> middleware_catch e st'
                | (Normal, st') \<Rightarrow> (Normal, cleanupTempFiles (parsedFiles fs) st'))))"

subsection \<open>The two relay handlers\<close>

text \<open>
  What follows \<open>fetch\<close> in both callbacks: a status that is not OK throws, an OK
  response is parsed and passed on with status 200.
\<close>

definition forward_response :: "fetch_result \<Rightarrow> edge_state \<Rightarrow> outcome \<times> edge_state" where
  "forward_response r st =
     (case r of
        FetchRejected e \<Rightarrow> (Raised e, st)
      | FetchResponse code body \<Rightarrow>
          if \<not> response_ok code
          then (Raised (Error (''Backend responded with status: '' @ dec_str code)), st)
          else (case body of
                  None \<Rightarrow> (Raised (Error ''Unexpected token in JSON''), st)
                | Some result \<Rightarrow> (Normal, respond 200 (BackendJson result) st)))"

definition method_not_allowed :: "edge_state \<Rightarrow> edge_state" where
  "method_not_allowed st = respond 405 (FailureBody ''Method not allowed'' None) st"

definition internal_server_error :: "js_error \<Rightarrow> edge_state \<Rightarrow> edge_state" where
  "internal_server_error e st =
     respond 500 (FailureBody ''Internal server error'' (Some (error_message e))) st"

text \<open>
  The handler that goes with the stream variant: its callback lets the error out, and
  the handler awaits the middleware inside a \<open>try\<close> of its own.
\<close>

definition next_stream :: "backend \<Rightarrow> stream_formdata \<Rightarrow> edge_state \<Rightarrow> outcome \<times> edge_state" where
  "next_stream be body st = forward_response (fetch_stream be (tmp st) body) st"

definition handler_stream ::
  "string \<Rightarrow> js_error + parsed_fields \<times> parsed_files \<Rightarrow> backend \<Rightarrow> edge_state \<Rightarrow> edge_state" where
  "handler_stream method parsed be st =
     (if method \<noteq> ''POST'' then method_not_allowed st
      else case createFormDataMiddleware_stream parsed (next_stream be) st of
             (Normal, st') \<Rightarrow> st'
           | (Raised e, st') \<Rightarrow> internal_server_error e st')"

text \<open>
  The handler that goes with the buffer variant: its callback catches the error itself
  and answers 500, and the handler does not await the middleware.
\<close>

definition next_blob :: "backend \<Rightarrow> blob_formdata \<Rightarrow> edge_state \<Rightarrow> outcome \<times> edge_state" where
  "next_blob be body st =
     (case forward_response (be body) st of
        (Normal, st') \<Rightarrow> (Normal, st')
      | (Raised e, st') \<Rightarrow> (Normal, internal_server_error e st'))"

definition handler_blob ::
  "string \<Rightarrow> js_error + parsed_fields \<times> parsed_files \<Rightarrow> backend \<Rightarrow> edge_state \<Rightarrow> edge_state" where
  "handler_blob method parsed be st =
     (if method \<noteq> ''POST'' then method_not_allowed st
      else snd (createFormDataMiddleware_blob parsed (next_blob be) st))"

section \<open>Verdicts and admission, stated on the request\<close>

text \<open>
  Two functions used to state what the validation loop computes: whether a file of the
  request is accepted, and the rejection lines it adds to \<open>invalidFiles\<close>, both read off
  the uploads directory as the route finds it. They follow the branches of the per-file
  \<open>try\<close> and \<open>catch\<close>.
\<close>

definition accepted_on :: "filesystem \<Rightarrow> multer_file \<Rightarrow> bool" where
  "accepted_on d file =
     (case readFileSync d (path file) of
        Inl e \<Rightarrow> False
      | Inr buffer \<Rightarrow> if mimetype file = ''image/png'' then isPngByBytes buffer else True)"

definition rejections_on :: "filesystem \<Rightarrow> multer_file \<Rightarrow> string list" where
  "rejections_on d file =
     (case readFileSync d (path file) of
        Inl e \<Rightarrow> [originalname file @ '' - Validation error'']
      | Inr buffer \<Rightarrow>
          if mimetype file = ''image/png'' \<and> \<not> isPngByBytes buffer
          then (case unlinkSync d (path file) of
                  Inr d' \<Rightarrow> [originalname file @ '' - Invalid PNG signature'']
                | Inl e \<Rightarrow> [originalname file @ '' - Invalid PNG signature'',
                            originalname file @ '' - Validation error''])
          else [])"

text \<open>A part that the receiving layer lets through: right field, image type, within the size.\<close>

definition admissible :: "multer_file \<Rightarrow> bool" where
  "admissible file =
     (fieldname file = ''images'' \<and> prefix ''image/'' (mimetype file)
      \<and> file_size file \<le> fileSize)"



fun blob_typed :: "'c form_part \<Rightarrow> 'c form_part" where
  "blob_typed (FieldPart key val) = FieldPart key val"
| "blob_typed (FilePart fieldName content name ctype) = FilePart fieldName content name (blob_type ctype)"

text \<open>What the streams of a body hold, each file part with the type a blob gives it.\<close>

definition read_as_blobs :: "filesystem \<Rightarrow> stream_formdata \<Rightarrow> js_error + blob_formdata" where
  "read_as_blobs d body =
     (case read_streams d body of
        Inl e \<Rightarrow> Inl e
      | Inr parts \<Rightarrow> Inr (map blob_typed parts))"

section \<open>Sample inputs\<close>

text \<open>Concrete files, directories and requests on which the theorems below are run.\<close>

definition sample_png :: multer_file where
  "sample_png =
     \<lparr>fieldname = ''images'', originalname = ''logo.png'', mimetype = ''image/png'',
      filename = ''u1-1700000000000.png'', path = ''uploads/u1-1700000000000.png'',
      file_size = 8\<rparr>"

definition zero_bytes :: "byte list" where
  "zero_bytes = [0, 0, 0, 0, 0, 0, 0, 0]"

definition disk_with :: "string \<Rightarrow> byte list \<Rightarrow> bool \<Rightarrow> bool \<Rightarrow> filesystem" where
  "disk_with p bs rf uf = Map.empty(p \<mapsto> \<lparr>node_bytes = bs, read_fails = rf, unlink_fails = uf\<rparr>)"

definition forged_png_state :: be_state where
  "forged_png_state = init_state (disk_with (path sample_png) zero_bytes False False)"

definition unreadable_state :: be_state where
  "unreadable_state = init_state (disk_with (path sample_png) zero_bytes True False)"

definition missing_state :: be_state where
  "missing_state = init_state Map.empty"

definition locked_png_state :: be_state where
  "locked_png_state = init_state (disk_with (path sample_png) zero_bytes False True)"

definition genuine_png :: multer_file where
  "genuine_png =
     \<lparr>fieldname = ''images'', originalname = ''photo.png'', mimetype = ''image/png'',
      filename = ''u0-1700000000000.png'', path = ''uploads/u0-1700000000000.png'',
      file_size = 10\<rparr>"

definition genuine_bytes :: "byte list" where
  "genuine_bytes = [0x89, 0x50, 0x4E, 0x47, 0x0D, 0x0A, 0x1A, 0x0A, 0, 0]"

definition mixed_disk :: filesystem where
  "mixed_disk =
     Map.empty
       (path genuine_png \<mapsto> \<lparr>node_bytes = genuine_bytes, read_fails = False, unlink_fails = False\<rparr>,
        path sample_png \<mapsto> \<lparr>node_bytes = zero_bytes, read_fails = False, unlink_fails = False\<rparr>)"

definition mixed_request :: request where
  "mixed_request =
     \<lparr>req_files = Some [genuine_png, sample_png], protocol = ''http'',
      host = Some ''localhost:8080''\<rparr>"

definition sample_ids :: "nat \<Rightarrow> string" where
  "sample_ids k = ''id-'' @ dec_str k"

definition text_file :: multer_file where
  "text_file =
     \<lparr>fieldname = ''images'', originalname = ''notes.txt'', mimetype = ''text/plain'',
      filename = ''u2-1700000000000.txt'', path = ''uploads/u2-1700000000000.txt'',
      file_size = 12\<rparr>"

definition text_request :: request where
  "text_request = \<lparr>req_files = Some [text_file], protocol = ''http'', host = Some ''localhost:8080''\<rparr>"

definition second_forged :: multer_file where
  "second_forged =
     \<lparr>fieldname = ''images'', originalname = ''icon.png'', mimetype = ''image/png'',
      filename = ''u4-1700000000000.png'', path = ''uploads/u4-1700000000000.png'',
      file_size = 8\<rparr>"

definition forged_disk :: filesystem where
  "forged_disk =
     Map.empty
       (path sample_png \<mapsto> \<lparr>node_bytes = zero_bytes, read_fails = False, unlink_fails = False\<rparr>,
        path second_forged \<mapsto> \<lparr>node_bytes = zero_bytes, read_fails = False, unlink_fails = False\<rparr>)"

definition forged_request :: request where
  "forged_request =
     \<lparr>req_files = Some [sample_png, second_forged], protocol = ''http'',
      host = Some ''localhost:8080''\<rparr>"

definition eleven_request :: request where
  "eleven_request =
     \<lparr>req_files = Some [genuine_png, genuine_png, genuine_png, genuine_png, genuine_png,
                         genuine_png, genuine_png, genuine_png, genuine_png, genuine_png,
                         genuine_png],
      protocol = ''http'', host = Some ''localhost:8080''\<rparr>"

definition big_file :: multer_file where
  "big_file =
     \<lparr>fieldname = ''images'', originalname = ''huge.jpg'', mimetype = ''image/jpeg'',
      filename = ''u3-1700000000000.jpg'', path = ''uploads/u3-1700000000000.jpg'',
      file_size = 6 * 1024 * 1024\<rparr>"

definition big_request :: request where
  "big_request = \<lparr>req_files = Some [big_file], protocol = ''http'', host = Some ''localhost:8080''\<rparr>"

definition sample_upload :: formidable_file where
  "sample_upload =
     \<lparr>filepath = Some ''/tmp/upload_a'', originalFilename = Some ''logo.png'',
      part_mimetype = Some ''image/png''\<rparr>"



definition pathless_upload :: formidable_file where
  "pathless_upload =
     \<lparr>filepath = None, originalFilename = Some ''ghost.png'', part_mimetype = Some ''image/png''\<rparr>"

definition nameless_upload :: formidable_file where
  "nameless_upload = \<lparr>filepath = Some ''/tmp/upload_c'', originalFilename = None, part_mimetype = None\<rparr>"

definition sample_fields :: parsed_fields where
  "sample_fields = [(''title'', FieldArray [''upload image''])]"

definition sample_files :: parsed_files where
  "sample_files = [(''images'', FileArray [Some sample_upload])]"

definition edge_start :: edge_state where
  "edge_start =
     \<lparr>tmp = disk_with ''/tmp/upload_a'' zero_bytes False False, sent = [], warnings = []\<rparr>"

definition backend_400 :: backend where
  "backend_400 body = FetchResponse 400 (Some ''{success: false}'')"

definition backend_200 :: backend where
  "backend_200 body = FetchResponse 200 (Some ''{success: true}'')"

definition mixed_list :: "formidable_file option list" where
  "mixed_list = [Some sample_upload, Some pathless_upload, Some nameless_upload]"

section \<open>Signature validation of one file\<close>

lemma isPngByBytes_iff:
  "isPngByBytes buffer \<longleftrightarrow>
     8 \<le> length buffer \<and> take 8 buffer = [0x89, 0x50, 0x4E, 0x47, 0x0D, 0x0A, 0x1A, 0x0A]"
proof -
  have len: "length PNG_SIGNATURE = 8"
    by (simp add: PNG_SIGNATURE_def)
  show ?thesis
    unfolding isPngByBytes_def len by (auto simp: PNG_SIGNATURE_def)
qed

lemma readFileSync_node:
  "readFileSync d p = Inr buffer \<Longrightarrow> \<exists>n. d p = Some n \<and> node_bytes n = buffer"
  by (auto simp: readFileSync_def split: option.splits if_splits)

lemma unlinkSync_result:
  "unlinkSync d p = Inr d' \<Longrightarrow> d' = d(p := None)"
  by (auto simp: unlinkSync_def split: option.splits if_splits)

text \<open>
  Claim C1 (as amended). A file declared \<open>image/png\<close> whose content was read is
  accepted exactly when the content has at least 8 bytes and starts with
  89 50 4E 47 0D 0A 1A 0A. Otherwise the file is not accepted, the line
  \<open>Invalid PNG signature\<close> is the first it adds to the rejections, and the removal of its
  temp file is tried; when the removal succeeds that line is the file's only one and the
  temp file is gone from the uploads directory. A file of any other \<open>image/*\<close> type is
  accepted whatever its bytes.
\<close>

theorem signature_validator_verdict:
  assumes "readFileSync (disk s) (path file) = Inr buffer"
      and "validate_file file s = (out, s')"
  shows "(mimetype file = ''image/png'' \<longrightarrow>
            ((validFiles s' = validFiles s @ [file] \<and> invalidFiles s' = invalidFiles s
                \<and> disk s' = disk s)
             \<longleftrightarrow> (8 \<le> length buffer
                  \<and> take 8 buffer = [0x89, 0x50, 0x4E, 0x47, 0x0D, 0x0A, 0x1A, 0x0A])))
       \<and> (mimetype file = ''image/png''
            \<and> \<not> (8 \<le> length buffer
                   \<and> take 8 buffer = [0x89, 0x50, 0x4E, 0x47, 0x0D, 0x0A, 0x1A, 0x0A]) \<longrightarrow>
            validFiles s' = validFiles s
            \<and> take (Suc (length (invalidFiles s))) (invalidFiles s')
                = invalidFiles s @ [originalname file @ '' - Invalid PNG signature'']
            \<and> (\<forall>d'. unlinkSync (disk s) (path file) = Inr d' \<longrightarrow>
                  out = Normal
                  \<and> invalidFiles s'
                      = invalidFiles s @ [originalname file @ '' - Invalid PNG signature'']
                  \<and> disk s' = d' \<and> disk s' (path file) = None))
       \<and> (prefix ''image/'' (mimetype file) \<and> mimetype file \<noteq> ''image/png'' \<longrightarrow>
            out = Normal \<and> validFiles s' = validFiles s @ [file]
            \<and> invalidFiles s' = invalidFiles s \<and> disk s' = disk s)"
  using assms
  by (auto simp: validate_file_def try_block_def catch_block_def isPngByBytes_iff Let_def
           dest: unlinkSync_result split: sum.splits if_splits)

text \<open>
  Claim C1 as stated fails: a forged PNG whose temp file cannot be removed stays on disk,
  and the line \<open>Invalid PNG signature\<close> is not its only one.
\<close>

theorem forged_png_kept_when_removal_fails:
  "mimetype sample_png = ''image/png''
   \<and> readFileSync (disk locked_png_state) (path sample_png) = Inr zero_bytes
   \<and> take 8 zero_bytes \<noteq> [0x89, 0x50, 0x4E, 0x47, 0x0D, 0x0A, 0x1A, 0x0A]
   \<and> validFiles (snd (validate_file sample_png locked_png_state)) = []
   \<and> disk (snd (validate_file sample_png locked_png_state)) (path sample_png) \<noteq> None
   \<and> invalidFiles (snd (validate_file sample_png locked_png_state))
       = [''logo.png - Invalid PNG signature'', ''logo.png - Validation error'']"
proof -
  have rd: "readFileSync (disk locked_png_state) (path sample_png) = Inr zero_bytes"
    by (simp add: locked_png_state_def init_state_def disk_with_def readFileSync_def)
  have un: "unlinkSync (disk locked_png_state) (path sample_png)
              = Inl (SystemError ''EPERM'' (path sample_png))"
    by (simp add: locked_png_state_def init_state_def disk_with_def unlinkSync_def)
  have sig: "\<not> isPngByBytes zero_bytes"
    and bytes: "take 8 zero_bytes \<noteq> [0x89, 0x50, 0x4E, 0x47, 0x0D, 0x0A, 0x1A, 0x0A]"
    by (simp_all add: isPngByBytes_def PNG_SIGNATURE_def zero_bytes_def)
  have ty: "mimetype sample_png = ''image/png''" and nm: "originalname sample_png = ''logo.png''"
    by (simp_all add: sample_png_def)
  have st: "invalidFiles locked_png_state = []" "validFiles locked_png_state = []"
    "disk locked_png_state (path sample_png) \<noteq> None"
    by (simp_all add: locked_png_state_def init_state_def disk_with_def)
  have "try_block sample_png locked_png_state
          = (Raised (SystemError ''EPERM'' (path sample_png)),
             locked_png_state\<lparr>invalidFiles := [''logo.png - Invalid PNG signature'']\<rparr>)"
    using rd un sig ty nm st by (simp add: try_block_def Let_def)
  then have "validate_file sample_png locked_png_state
          = catch_block sample_png (SystemError ''EPERM'' (path sample_png))
              (locked_png_state\<lparr>invalidFiles := [''logo.png - Invalid PNG signature'']\<rparr>)"
    by (simp add: validate_file_def)
  with un nm st have
    "validFiles (snd (validate_file sample_png locked_png_state)) = []
     \<and> disk (snd (validate_file sample_png locked_png_state)) (path sample_png) \<noteq> None
     \<and> invalidFiles (snd (validate_file sample_png locked_png_state))
         = [''logo.png - Invalid PNG signature'', ''logo.png - Validation error'']"
    by (simp add: catch_block_def Let_def)
  with ty rd bytes show ?thesis by simp
qed

text \<open>A forged PNG that can be removed: one rejection line, temp file gone.\<close>

theorem signature_validator_verdict_witness:
  "readFileSync (disk forged_png_state) (path sample_png) = Inr zero_bytes
   \<and> validFiles (snd (validate_file sample_png forged_png_state)) = []
   \<and> invalidFiles (snd (validate_file sample_png forged_png_state))
       = [''logo.png - Invalid PNG signature'']
   \<and> disk (snd (validate_file sample_png forged_png_state)) (path sample_png) = None"
proof -
  have rd: "readFileSync (disk forged_png_state) (path sample_png) = Inr zero_bytes"
    by (simp add: forged_png_state_def init_state_def disk_with_def readFileSync_def)
  have un: "unlinkSync (disk forged_png_state) (path sample_png)
              = Inr ((disk forged_png_state)(path sample_png := None))"
    by (simp add: forged_png_state_def init_state_def disk_with_def unlinkSync_def)
  have ty: "mimetype sample_png = ''image/png''"
    by (simp add: sample_png_def)
  have sig: "\<not> (8 \<le> length zero_bytes
               \<and> take 8 zero_bytes = [0x89, 0x50, 0x4E, 0x47, 0x0D, 0x0A, 0x1A, 0x0A])"
    by (simp add: zero_bytes_def)
  have st: "invalidFiles forged_png_state = [] \<and> validFiles forged_png_state = []"
    by (simp add: forged_png_state_def init_state_def)
  have nm: "originalname sample_png = ''logo.png''"
    by (simp add: sample_png_def)
  from signature_validator_verdict [OF rd surjective_pairing] ty sig un st nm rd
  show ?thesis by simp
qed

section \<open>Read errors stay inside the loop\<close>

lemma catch_block_Normal: "fst (catch_block file e s) = Normal"
  by (simp add: catch_block_def Let_def split: sum.splits)

lemma validate_file_Normal: "fst (validate_file file s) = Normal"
proof (cases "try_block file s")
  case (Pair out s1)
  then show ?thesis
    by (cases out) (simp_all add: validate_file_def catch_block_Normal)
qed

lemma validate_loop_Normal: "fst (validate_loop fs s) = Normal"
proof (induction fs arbitrary: s)
  case Nil
  then show ?case by simp
next
  case (Cons f rest)
  obtain s1 where step: "validate_file f s = (Normal, s1)"
    using validate_file_Normal [of f s] by (cases "validate_file f s") simp
  then show ?case using Cons.IH [of s1] by simp
qed

text \<open>
  Claim C6. A file whose content cannot be read is rejected with the line
  \<open>Validation error\<close> and is not accepted; the removal of its temp file is tried, and
  when it fails too the failure is a console warning and nothing more. The step ends
  normally, the loop goes on with the files that remain, the loop as a whole never raises,
  and so the route's outer \<open>try\<close> always ends with a response.
\<close>

theorem read_error_is_a_rejection:
  assumes "readFileSync (disk s) (path file) = Inl e"
  shows "\<exists>s'. validate_file file s = (Normal, s')
           \<and> validFiles s' = validFiles s
           \<and> invalidFiles s' = invalidFiles s @ [originalname file @ '' - Validation error'']
           \<and> (case unlinkSync (disk s) (path file) of
                 Inr d \<Rightarrow> disk s' = d \<and> disk s' (path file) = None
               | Inl cleanupError \<Rightarrow>
                   disk s' = disk s
                   \<and> last (console s') = ConsoleWarn (''Failed to cleanup invalid file: '' @ path file))
           \<and> validate_loop (file # rest) s = validate_loop rest s'
           \<and> fst (validate_loop (file # rest) s) = Normal
           \<and> (\<exists>response. fst (route_try req uuidv4 s) = Inr response)"
proof -
  have tb: "try_block file s = (Raised e, s)"
    using assms by (simp add: try_block_def)
  obtain s' where step: "validate_file file s = (Normal, s')"
    using validate_file_Normal [of "file" s] by (cases "validate_file file s") simp
  have s': "s' = snd (catch_block file e s)"
    using step tb by (simp add: validate_file_def)
  have "validFiles s' = validFiles s"
    unfolding s' by (simp add: catch_block_def Let_def split: sum.splits)
  moreover have "invalidFiles s' = invalidFiles s @ [originalname file @ '' - Validation error'']"
    unfolding s' by (simp add: catch_block_def Let_def split: sum.splits)
  moreover have "case unlinkSync (disk s) (path file) of
                   Inr d \<Rightarrow> disk s' = d \<and> disk s' (path file) = None
                 | Inl cleanupError \<Rightarrow>
                     disk s' = disk s
                     \<and> last (console s') = ConsoleWarn (''Failed to cleanup invalid file: '' @ path file)"
    unfolding s' by (auto simp: catch_block_def Let_def dest: unlinkSync_result split: sum.splits)
  moreover have "validate_loop (file # rest) s = validate_loop rest s'"
    using step by simp
  moreover have "fst (validate_loop (file # rest) s) = Normal"
    by (rule validate_loop_Normal)
  moreover have "\<exists>response. fst (route_try req uuidv4 s) = Inr response"
  proof (cases "req_files req")
    case None
    then show ?thesis by (simp add: route_try_def Let_def)
  next
    case (Some fs)
    let ?s0 = "s\<lparr>console := console s @ [ConsoleLog ''req :>> '']\<rparr>"
    obtain s1 where "validate_loop fs ?s0 = (Normal, s1)"
      using validate_loop_Normal [of fs ?s0] by (cases "validate_loop fs ?s0") simp
    with Some show ?thesis by (simp add: route_try_def Let_def)
  qed
  ultimately show ?thesis using step by blast
qed

text \<open>
  Two runs: an unreadable file that can be removed (rejected, temp file gone), and a file
  that is missing from the directory (rejected, the failed removal is a console warning).
\<close>

theorem read_error_is_a_rejection_witness:
  "readFileSync (disk unreadable_state) (path sample_png)
     = Inl (SystemError ''EACCES'' (path sample_png))
   \<and> fst (validate_file sample_png unreadable_state) = Normal
   \<and> validFiles (snd (validate_file sample_png unreadable_state)) = []
   \<and> invalidFiles (snd (validate_file sample_png unreadable_state))
       = [''logo.png - Validation error'']
   \<and> disk (snd (validate_file sample_png unreadable_state)) (path sample_png) = None
   \<and> readFileSync (disk missing_state) (path sample_png)
       = Inl (SystemError ''ENOENT'' (path sample_png))
   \<and> fst (validate_file sample_png missing_state) = Normal
   \<and> invalidFiles (snd (validate_file sample_png missing_state))
       = [''logo.png - Validation error'']
   \<and> last (console (snd (validate_file sample_png missing_state)))
       = ConsoleWarn ''Failed to cleanup invalid file: uploads/u1-1700000000000.png''"
proof -
  have nm: "originalname sample_png = ''logo.png''"
    and pt: "path sample_png = ''uploads/u1-1700000000000.png''"
    by (simp_all add: sample_png_def)
  have rd: "readFileSync (disk unreadable_state) (path sample_png)
              = Inl (SystemError ''EACCES'' (path sample_png))"
    by (simp add: unreadable_state_def init_state_def disk_with_def readFileSync_def)
  have un: "unlinkSync (disk unreadable_state) (path sample_png)
              = Inr ((disk unreadable_state)(path sample_png := None))"
    by (simp add: unreadable_state_def init_state_def disk_with_def unlinkSync_def)
  have st: "invalidFiles unreadable_state = [] \<and> validFiles unreadable_state = []"
    by (simp add: unreadable_state_def init_state_def)
  from read_error_is_a_rejection [OF rd]
  obtain s' where "validate_file sample_png unreadable_state = (Normal, s')"
    and "validFiles s' = validFiles unreadable_state"
    and "invalidFiles s' = invalidFiles unreadable_state
           @ [originalname sample_png @ '' - Validation error'']"
    and "case unlinkSync (disk unreadable_state) (path sample_png) of
           Inr d \<Rightarrow> disk s' = d \<and> disk s' (path sample_png) = None
         | Inl cleanupError \<Rightarrow>
             disk s' = disk unreadable_state
             \<and> last (console s')
                 = ConsoleWarn (''Failed to cleanup invalid file: '' @ path sample_png)"
    by blast
  then have first_run:
    "fst (validate_file sample_png unreadable_state) = Normal
     \<and> validFiles (snd (validate_file sample_png unreadable_state)) = []
     \<and> invalidFiles (snd (validate_file sample_png unreadable_state))
         = [''logo.png - Validation error'']
     \<and> disk (snd (validate_file sample_png unreadable_state)) (path sample_png) = None"
    using un st nm by simp
  have rd2: "readFileSync (disk missing_state) (path sample_png)
               = Inl (SystemError ''ENOENT'' (path sample_png))"
    by (simp add: missing_state_def init_state_def readFileSync_def)
  have un2: "unlinkSync (disk missing_state) (path sample_png)
               = Inl (SystemError ''ENOENT'' (path sample_png))"
    by (simp add: missing_state_def init_state_def unlinkSync_def)
  have st2: "invalidFiles missing_state = []"
    by (simp add: missing_state_def init_state_def)
  from read_error_is_a_rejection [OF rd2]
  obtain s2 where "validate_file sample_png missing_state = (Normal, s2)"
    and "invalidFiles s2 = invalidFiles missing_state
           @ [originalname sample_png @ '' - Validation error'']"
    and "case unlinkSync (disk missing_state) (path sample_png) of
           Inr d \<Rightarrow> disk s2 = d \<and> disk s2 (path sample_png) = None
         | Inl cleanupError \<Rightarrow>
             disk s2 = disk missing_state
             \<and> last (console s2)
                 = ConsoleWarn (''Failed to cleanup invalid file: '' @ path sample_png)"
    by blast
  then have second_run:
    "fst (validate_file sample_png missing_state) = Normal
     \<and> invalidFiles (snd (validate_file sample_png missing_state))
         = [''logo.png - Validation error'']
     \<and> last (console (snd (validate_file sample_png missing_state)))
         = ConsoleWarn ''Failed to cleanup invalid file: uploads/u1-1700000000000.png''"
    using un2 st2 nm pt by simp
  from rd rd2 first_run second_run show ?thesis by blast
qed

section \<open>What the loop computes\<close>

lemma validate_file_step:
  "\<exists>s'. validate_file file s = (Normal, s')
        \<and> validFiles s' = validFiles s @ (if accepted_on (disk s) file then [file] else [])
        \<and> invalidFiles s' = invalidFiles s @ rejections_on (disk s) file
        \<and> (\<forall>p. p \<noteq> path file \<longrightarrow> disk s' p = disk s p)"
  by (auto simp: validate_file_def try_block_def catch_block_def accepted_on_def
        rejections_on_def Let_def
      dest!: unlinkSync_result split: sum.splits)

lemma accepted_on_cong:
  "d1 (path file) = d2 (path file) \<Longrightarrow> accepted_on d1 file = accepted_on d2 file"
  by (simp add: accepted_on_def readFileSync_def)

lemma rejections_on_cong:
  "d1 (path file) = d2 (path file) \<Longrightarrow> rejections_on d1 file = rejections_on d2 file"
  by (simp add: rejections_on_def readFileSync_def unlinkSync_def split: option.splits)

lemma validate_loop_partition:
  assumes "distinct (map path fs)"
  shows "\<exists>s'. validate_loop fs s = (Normal, s')
           \<and> validFiles s' = validFiles s @ filter (accepted_on (disk s)) fs
           \<and> invalidFiles s' = invalidFiles s @ concat (map (rejections_on (disk s)) fs)"
  using assms
proof (induction fs arbitrary: s)
  case Nil
  then show ?case by simp
next
  case (Cons f rest)
  obtain s1 where step: "validate_file f s = (Normal, s1)"
    and v1: "validFiles s1 = validFiles s @ (if accepted_on (disk s) f then [f] else [])"
    and i1: "invalidFiles s1 = invalidFiles s @ rejections_on (disk s) f"
    and frame: "\<forall>p. p \<noteq> path f \<longrightarrow> disk s1 p = disk s p"
    using validate_file_step [of f s] by blast
  from Cons.prems have dist: "distinct (map path rest)" and fresh: "path f \<notin> path ` set rest"
    by simp_all
  obtain s' where loop: "validate_loop rest s1 = (Normal, s')"
    and v': "validFiles s' = validFiles s1 @ filter (accepted_on (disk s1)) rest"
    and i': "invalidFiles s' = invalidFiles s1 @ concat (map (rejections_on (disk s1)) rest)"
    using Cons.IH [OF dist, of s1] by blast
  have same: "disk s1 (path g) = disk s (path g)" if "g \<in> set rest" for g
  proof -
    from that fresh have "path g \<noteq> path f" by (metis imageI)
    with frame show ?thesis by blast
  qed
  have "accepted_on (disk s1) g = accepted_on (disk s) g" if "g \<in> set rest" for g
    using same [OF that] by (rule accepted_on_cong)
  then have acc: "filter (accepted_on (disk s1)) rest = filter (accepted_on (disk s)) rest"
    by (simp cong: filter_cong)
  have "rejections_on (disk s1) g = rejections_on (disk s) g" if "g \<in> set rest" for g
    using same [OF that] by (rule rejections_on_cong)
  then have rej: "map (rejections_on (disk s1)) rest = map (rejections_on (disk s)) rest"
    by simp
  have "validate_loop (f # rest) s = (Normal, s')"
    using step loop by simp
  moreover have "validFiles s' = validFiles s @ filter (accepted_on (disk s)) (f # rest)"
    unfolding v' v1 acc by simp
  moreover have "invalidFiles s' = invalidFiles s @ concat (map (rejections_on (disk s)) (f # rest))"
    unfolding i' i1 rej by simp
  ultimately show ?case by blast
qed

lemma validate_file_disk:
  "disk (snd (validate_file file s)) p = disk s p \<or> disk (snd (validate_file file s)) p = None"
  by (auto simp: validate_file_def try_block_def catch_block_def Let_def
      dest!: unlinkSync_result split: sum.splits if_splits)

section \<open>Verdicts per file\<close>

text \<open>
  When no removal fails, every received file adds exactly one entry to one of the two
  arrays.
\<close>

lemma one_verdict_step:
  assumes "\<And>p n. disk s p = Some n \<Longrightarrow> \<not> unlink_fails n"
  shows "length (if accepted_on (disk s) file then [file] else [])
           + length (rejections_on (disk s) file) = 1"
proof (cases "readFileSync (disk s) (path file)")
  case (Inl e)
  then show ?thesis
    by (simp add: accepted_on_def rejections_on_def)
next
  case (Inr buffer)
  then obtain n where "disk s (path file) = Some n"
    using readFileSync_node by blast
  with assms have "unlinkSync (disk s) (path file) = Inr ((disk s)(path file := None))"
    by (simp add: unlinkSync_def)
  with Inr show ?thesis
    by (simp add: accepted_on_def rejections_on_def)
qed

lemma one_verdict_per_file_when_removals_work:
  assumes "\<And>p n. disk s p = Some n \<Longrightarrow> \<not> unlink_fails n"
  shows "length (validFiles (snd (validate_loop fs s)))
           + length (invalidFiles (snd (validate_loop fs s)))
         = length (validFiles s) + length (invalidFiles s) + length fs"
  using assms
proof (induction fs arbitrary: s)
  case Nil
  then show ?case by simp
next
  case (Cons f rest)
  obtain s1 where step: "validate_file f s = (Normal, s1)"
    and v1: "validFiles s1 = validFiles s @ (if accepted_on (disk s) f then [f] else [])"
    and i1: "invalidFiles s1 = invalidFiles s @ rejections_on (disk s) f"
    using validate_file_step [of f s] by blast
  have one: "length (validFiles s1) + length (invalidFiles s1)
               = length (validFiles s) + length (invalidFiles s) + 1"
    using one_verdict_step [of s f] Cons.prems unfolding v1 i1 by simp
  have inv: "\<not> unlink_fails n" if "disk s1 p = Some n" for p n
  proof -
    from validate_file_disk [of f s p] step that have "disk s p = Some n"
      by auto
    then show ?thesis by (rule Cons.prems)
  qed
  from Cons.IH [of s1] inv
  have "length (validFiles (snd (validate_loop rest s1)))
          + length (invalidFiles (snd (validate_loop rest s1)))
        = length (validFiles s1) + length (invalidFiles s1) + length rest"
    by blast
  with one step show ?case by simp
qed

text \<open>
  Claim C5. One verdict per received file fails on a file declared
  \<open>image/png\<close> with a wrong signature whose temp file cannot be removed: the removal
  in the \<open>try\<close> is not guarded, its error reaches the per-file \<open>catch\<close>, and the file
  gets a second rejection line. One file, two lines in \<open>invalidFiles\<close>.
\<close>

theorem removal_failure_gives_two_verdicts:
  "validFiles (snd (validate_loop [sample_png] locked_png_state)) = []
   \<and> invalidFiles (snd (validate_loop [sample_png] locked_png_state))
       = [''logo.png - Invalid PNG signature'', ''logo.png - Validation error'']
   \<and> length (validFiles (snd (validate_loop [sample_png] locked_png_state)))
       + length (invalidFiles (snd (validate_loop [sample_png] locked_png_state))) = 2
   \<and> length [sample_png] = 1"
  by (simp add: locked_png_state_def init_state_def disk_with_def sample_png_def zero_bytes_def
        validate_file_def try_block_def catch_block_def readFileSync_def unlinkSync_def
        isPngByBytes_def PNG_SIGNATURE_def Let_def)

section \<open>The response of the upload route\<close>

lemma map_over_enumerate:
  "map (\<lambda>x. g (snd x)) (enumerate n xs) = map g xs"
proof -
  have "map (\<lambda>x. g (snd x)) (enumerate n xs) = map g (map snd (enumerate n xs))"
    by (simp only: map_map comp_def)
  then show ?thesis by simp
qed

lemma fileData_fields:
  "length (fileData req uuidv4 valid) = length valid"
  "map sf_path (fileData req uuidv4 valid) = map path valid"
  "map sf_originalName (fileData req uuidv4 valid) = map originalname valid"
  "map sf_filename (fileData req uuidv4 valid) = map filename valid"
  by (simp_all add: fileData_def split_def comp_def map_over_enumerate)

lemma join_separated:
  "rs \<noteq> [] \<Longrightarrow> join sep rs = concat (map (\<lambda>r. r @ sep) (butlast rs)) @ last rs"
  by (induction sep rs rule: join.induct) simp_all

lemma rejected_has_reason:
  "\<not> accepted_on d file \<Longrightarrow> rejections_on d file \<noteq> []"
  by (auto simp: accepted_on_def rejections_on_def split: sum.splits if_splits)

lemma all_rejected_reasons:
  assumes "fs \<noteq> []" and "filter (accepted_on d) fs = []"
  shows "concat (map (rejections_on d) fs) \<noteq> []"
proof -
  from assms(1) obtain f rest where fs: "fs = f # rest"
    by (cases fs) auto
  with assms(2) have "\<not> accepted_on d f"
    by (auto split: if_splits)
  then have "rejections_on d f \<noteq> []"
    by (rule rejected_has_reason)
  with fs show ?thesis by simp
qed

text \<open>
  Claim C3. For a request with at least one received file (each stored under
  its own path): when no file passes validation the response has status 400,
  \<open>success = false\<close>, no \<open>files\<close> field, and an \<open>error\<close> string that is the rejection
  lines, of which there is at least one, in the order they were recorded, each but the
  last followed by a comma and a space; when at least one passes, the response has status
  200, \<open>success = true\<close>, and \<open>files\<close> describes exactly the accepted files, in the
  order of receipt.
\<close>

theorem upload_response_partition:
  assumes "req_files req = Some fs" and "fs \<noteq> []" and "distinct (map path fs)"
  shows "(filter (accepted_on d) fs = [] \<longrightarrow>
            status (fst (upload_route req uuidv4 d)) = 400
            \<and> \<not> success (fst (upload_route req uuidv4 d))
            \<and> files (fst (upload_route req uuidv4 d)) = None
            \<and> concat (map (rejections_on d) fs) \<noteq> []
            \<and> error (fst (upload_route req uuidv4 d))
                = Some (concat (map (\<lambda>r. r @ '', '')
                                  (butlast (concat (map (rejections_on d) fs))))
                        @ last (concat (map (rejections_on d) fs))))
       \<and> (filter (accepted_on d) fs \<noteq> [] \<longrightarrow>
            status (fst (upload_route req uuidv4 d)) = 200
            \<and> success (fst (upload_route req uuidv4 d))
            \<and> (\<exists>listed. files (fst (upload_route req uuidv4 d)) = Some listed
                  \<and> listed = fileData req uuidv4 (filter (accepted_on d) fs)
                  \<and> map sf_path listed = map path (filter (accepted_on d) fs)
                  \<and> map sf_originalName listed = map originalname (filter (accepted_on d) fs)))"
proof -
  let ?s0 = "(init_state d)\<lparr>console := console (init_state d) @ [ConsoleLog ''req :>> '']\<rparr>"
  let ?rs = "concat (map (rejections_on d) fs)"
  have d0: "disk ?s0 = d" and v0: "validFiles ?s0 = []" and i0: "invalidFiles ?s0 = []"
    by (simp_all add: init_state_def)
  obtain s1 where loop: "validate_loop fs ?s0 = (Normal, s1)"
    and v1: "validFiles s1 = filter (accepted_on d) fs"
    and i1: "invalidFiles s1 = ?rs"
    using validate_loop_partition [OF assms(3), of ?s0] unfolding d0 v0 i0 by auto
  have route: "route_try req uuidv4 (init_state d) =
                 (if filter (accepted_on d) fs = []
                  then (Inr (all_invalid_response ?rs), s1)
                  else (Inr (success_response req uuidv4 (filter (accepted_on d) fs) ?rs), s1))"
    using assms(1,2) loop v1 i1 by (simp add: route_try_def Let_def)
  show ?thesis
  proof (cases "filter (accepted_on d) fs = []")
    case True
    have some: "?rs \<noteq> []"
      using assms(2) True by (rule all_rejected_reasons)
    then have "join '', '' ?rs = concat (map (\<lambda>r. r @ '', '') (butlast ?rs)) @ last ?rs"
      by (rule join_separated)
    with route True some show ?thesis
      by (simp add: upload_route_def all_invalid_response_def)
  next
    case False
    with route show ?thesis
      by (simp add: upload_route_def success_response_def fileData_fields)
  qed
qed

text \<open>
  Two runs: a genuine PNG followed by a forged one (status 200, one listed file), and two
  forged PNGs (status 400, both rejection lines in the error string).
\<close>

theorem upload_response_partition_witness:
  "req_files mixed_request = Some [genuine_png, sample_png]
   \<and> distinct (map path [genuine_png, sample_png])
   \<and> filter (accepted_on mixed_disk) [genuine_png, sample_png] = [genuine_png]
   \<and> status (fst (upload_route mixed_request sample_ids mixed_disk)) = 200
   \<and> success (fst (upload_route mixed_request sample_ids mixed_disk))
   \<and> files (fst (upload_route mixed_request sample_ids mixed_disk))
       = Some (fileData mixed_request sample_ids [genuine_png])
   \<and> req_files forged_request = Some [sample_png, second_forged]
   \<and> distinct (map path [sample_png, second_forged])
   \<and> filter (accepted_on forged_disk) [sample_png, second_forged] = []
   \<and> status (fst (upload_route forged_request sample_ids forged_disk)) = 400
   \<and> \<not> success (fst (upload_route forged_request sample_ids forged_disk))
   \<and> files (fst (upload_route forged_request sample_ids forged_disk)) = None
   \<and> error (fst (upload_route forged_request sample_ids forged_disk))
       = Some ''logo.png - Invalid PNG signature, icon.png - Invalid PNG signature''"
proof -
  have rq: "req_files mixed_request = Some [genuine_png, sample_png]"
    by (simp add: mixed_request_def)
  have ne: "[genuine_png, sample_png] \<noteq> []"
    by simp
  have di: "distinct (map path [genuine_png, sample_png])"
    by (simp add: genuine_png_def sample_png_def)
  have a1: "accepted_on mixed_disk genuine_png"
    by (simp add: accepted_on_def mixed_disk_def readFileSync_def genuine_png_def sample_png_def
          genuine_bytes_def isPngByBytes_def PNG_SIGNATURE_def)
  have a2: "\<not> accepted_on mixed_disk sample_png"
    by (simp add: accepted_on_def mixed_disk_def readFileSync_def genuine_png_def sample_png_def
          zero_bytes_def isPngByBytes_def PNG_SIGNATURE_def)
  have fl: "filter (accepted_on mixed_disk) [genuine_png, sample_png] = [genuine_png]"
    using a1 a2 by simp
  from upload_response_partition [OF rq ne di, of mixed_disk sample_ids] fl rq di
  have first_run:
    "status (fst (upload_route mixed_request sample_ids mixed_disk)) = 200
     \<and> success (fst (upload_route mixed_request sample_ids mixed_disk))
     \<and> files (fst (upload_route mixed_request sample_ids mixed_disk))
         = Some (fileData mixed_request sample_ids [genuine_png])"
    by simp
  have rq2: "req_files forged_request = Some [sample_png, second_forged]"
    by (simp add: forged_request_def)
  have ne2: "[sample_png, second_forged] \<noteq> []"
    by simp
  have di2: "distinct (map path [sample_png, second_forged])"
    by (simp add: sample_png_def second_forged_def)
  have no_sig: "\<not> isPngByBytes zero_bytes"
    by (simp add: isPngByBytes_def PNG_SIGNATURE_def zero_bytes_def)
  have b1: "\<not> accepted_on forged_disk sample_png" and b2: "\<not> accepted_on forged_disk second_forged"
    by (simp_all add: accepted_on_def forged_disk_def readFileSync_def sample_png_def
          second_forged_def no_sig)
  have fl2: "filter (accepted_on forged_disk) [sample_png, second_forged] = []"
    using b1 b2 by simp
  have r1: "rejections_on forged_disk sample_png = [''logo.png - Invalid PNG signature'']"
    and r2: "rejections_on forged_disk second_forged = [''icon.png - Invalid PNG signature'']"
    by (simp_all add: rejections_on_def forged_disk_def readFileSync_def unlinkSync_def
          sample_png_def second_forged_def no_sig)
  from upload_response_partition [OF rq2 ne2 di2, of forged_disk sample_ids] fl2 r1 r2
  have second_run:
    "status (fst (upload_route forged_request sample_ids forged_disk)) = 400
     \<and> \<not> success (fst (upload_route forged_request sample_ids forged_disk))
     \<and> files (fst (upload_route forged_request sample_ids forged_disk)) = None
     \<and> error (fst (upload_route forged_request sample_ids forged_disk))
         = Some ''logo.png - Invalid PNG signature, icon.png - Invalid PNG signature''"
    by simp
  from rq di fl first_run rq2 di2 fl2 second_run show ?thesis
    by (simp only: simp_thms)
qed

section \<open>Admission failures\<close>

lemma upload_array_admissible:
  "list_all admissible pre \<Longrightarrow> length pre \<le> n \<Longrightarrow>
     upload_array ''images'' n (pre @ rest) = upload_array ''images'' (n - length pre) rest"
proof (induction pre arbitrary: n)
  case Nil
  then show ?case by simp
next
  case (Cons f pre)
  from Cons.prems obtain m where n: "n = Suc m" and le: "length pre \<le> m"
    by (cases n) simp_all
  from Cons.prems have ok: "admissible f" and rest_ok: "list_all admissible pre"
    by simp_all
  have "upload_array ''images'' (Suc m) (f # pre @ rest) = upload_array ''images'' m (pre @ rest)"
    using ok by (simp add: admissible_def fileFilter_def)
  also have "\<dots> = upload_array ''images'' (m - length pre) rest"
    by (rule Cons.IH [OF rest_ok le])
  finally show ?case by (simp add: n)
qed

text \<open>
  Claim C4 (as amended). A request that breaks an admission cap fails as a whole:
  the route does not run and the response has \<open>success = false\<close> and no \<open>files\<close>. When
  the first part that breaks a cap is an image larger than 5 MiB the status is 400 with
  the message \<open>File too large. Maximum size is 5MB.\<close>; when it is a part whose declared
  type is not \<open>image/*\<close>, or an eleventh part, the status is 500 and the message is the
  error's own.
\<close>

theorem admission_rejection_response:
  assumes "req_files req = Some (pre @ f # post)"
      and "list_all admissible pre"
      and "length pre \<le> 10"
  shows "(length pre < 10 \<and> fieldname f = ''images'' \<and> \<not> prefix ''image/'' (mimetype f) \<longrightarrow>
            api_upload req uuidv4 d =
              \<lparr>status = 500, success = False, message = ''Only image files are allowed!'',
               files = None, error = None\<rparr>)
       \<and> (length pre < 10 \<and> fieldname f = ''images'' \<and> prefix ''image/'' (mimetype f)
            \<and> fileSize < file_size f \<longrightarrow>
            api_upload req uuidv4 d =
              \<lparr>status = 400, success = False, message = ''File too large. Maximum size is 5MB.'',
               files = None, error = None\<rparr>)
       \<and> (length pre = 10 \<longrightarrow>
            api_upload req uuidv4 d =
              \<lparr>status = 500, success = False, message = ''Unexpected field'',
               files = None, error = None\<rparr>)"
proof -
  have split: "upload_array ''images'' 10 (pre @ f # post)
                 = upload_array ''images'' (10 - length pre) (f # post)"
    by (rule upload_array_admissible [OF assms(2,3)])
  have api: "api_upload req uuidv4 d = error_middleware e"
    if "upload_array ''images'' (10 - length pre) (f # post) = Some e" for e
    using that assms(1) split by (simp add: api_upload_def)
  have non_image: "api_upload req uuidv4 d =
              \<lparr>status = 500, success = False, message = ''Only image files are allowed!'',
               files = None, error = None\<rparr>"
    if "length pre < 10" "fieldname f = ''images''" "\<not> prefix ''image/'' (mimetype f)"
  proof -
    have "upload_array ''images'' (10 - length pre) (f # post)
            = Some (Error ''Only image files are allowed!'')"
      using that by (simp add: fileFilter_def)
    from api [OF this] show ?thesis by (simp add: error_middleware_def)
  qed
  have too_large: "api_upload req uuidv4 d =
              \<lparr>status = 400, success = False, message = ''File too large. Maximum size is 5MB.'',
               files = None, error = None\<rparr>"
    if "length pre < 10" "fieldname f = ''images''" "prefix ''image/'' (mimetype f)"
       "fileSize < file_size f"
  proof -
    have "upload_array ''images'' (10 - length pre) (f # post)
            = Some (MulterError ''LIMIT_FILE_SIZE'' ''File too large'')"
      using that by (simp add: fileFilter_def)
    from api [OF this] show ?thesis by (simp add: error_middleware_def)
  qed
  have too_many: "api_upload req uuidv4 d =
              \<lparr>status = 500, success = False, message = ''Unexpected field'',
               files = None, error = None\<rparr>"
    if "length pre = 10"
  proof -
    have "upload_array ''images'' (10 - length pre) (f # post)
            = Some (MulterError ''LIMIT_UNEXPECTED_FILE'' ''Unexpected field'')"
      using that by simp
    from api [OF this] show ?thesis by (simp add: error_middleware_def)
  qed
  from non_image too_large too_many show ?thesis by blast
qed

text \<open>
  Claim C4 as stated fails: a part declared \<open>text/plain\<close> ends the request with status
  500, not 400, and so does an eleventh image.
\<close>

theorem non_image_upload_is_status_500:
  "\<not> prefix ''image/'' (mimetype text_file)
   \<and> status (api_upload text_request sample_ids Map.empty) = 500
   \<and> status (api_upload text_request sample_ids Map.empty) \<noteq> 400
   \<and> message (api_upload text_request sample_ids Map.empty) = ''Only image files are allowed!''
   \<and> map_option length (req_files eleven_request) = Some 11
   \<and> status (api_upload eleven_request sample_ids Map.empty) = 500
   \<and> message (api_upload eleven_request sample_ids Map.empty) = ''Unexpected field''"
proof -
  have nonimg: "api_upload text_request sample_ids Map.empty
                = error_middleware (Error ''Only image files are allowed!'')"
    by (simp add: api_upload_def text_request_def text_file_def fileFilter_def prefix_def)
  have img: "fileFilter genuine_png = Inr True"
    by (simp add: fileFilter_def genuine_png_def prefix_def)
  have small: "\<not> fileSize < file_size genuine_png" and fld: "fieldname genuine_png = ''images''"
    by (simp_all add: fileSize_def genuine_png_def)
  have eleven: "api_upload eleven_request sample_ids Map.empty
                  = error_middleware (MulterError ''LIMIT_UNEXPECTED_FILE'' ''Unexpected field'')"
    by (simp add: api_upload_def eleven_request_def img small fld)
  have "\<not> prefix ''image/'' (mimetype text_file)"
    by (simp add: text_file_def prefix_def)
  moreover have "map_option length (req_files eleven_request) = Some 11"
    by (simp add: eleven_request_def)
  ultimately show ?thesis
    unfolding nonimg eleven by (simp add: error_middleware_def)
qed

text \<open>A 6 MiB image: status 400 with the size message.\<close>

theorem admission_rejection_response_witness:
  "req_files big_request = Some ([] @ big_file # [])
   \<and> list_all admissible []
   \<and> fileSize < file_size big_file
   \<and> api_upload big_request sample_ids Map.empty =
        \<lparr>status = 400, success = False, message = ''File too large. Maximum size is 5MB.'',
         files = None, error = None\<rparr>"
proof -
  have rq: "req_files big_request = Some ([] @ big_file # [])"
    by (simp add: big_request_def)
  have pre: "list_all admissible []" and len: "length ([] :: multer_file list) \<le> 10"
    by simp_all
  have big: "fileSize < file_size big_file"
    by (simp add: fileSize_def big_file_def)
  have img: "fieldname big_file = ''images'' \<and> prefix ''image/'' (mimetype big_file)"
    by (simp add: big_file_def prefix_def)
  from admission_rejection_response [OF rq pre len, of sample_ids Map.empty] big img rq
  show ?thesis by simp
qed

section \<open>Stored names do not collide\<close>

lemma digit_char_is_digit: "digit_char d \<in> set ''0123456789''"
  unfolding digit_char_def by (rule nth_mem) simp

lemma digit_char_not_dash: "digit_char d \<noteq> CHR ''-''"
proof
  assume "digit_char d = CHR ''-''"
  with digit_char_is_digit [of d] have "CHR ''-'' \<in> set ''0123456789''"
    by simp
  then show False by simp
qed

lemma dec_str_no_dash: "CHR ''-'' \<notin> set (dec_str n)"
proof (induction n rule: dec_str.induct)
  case (1 n)
  show ?case
  proof (cases "n < 10")
    case True
    then show ?thesis
      using digit_char_not_dash [of n] by (simp add: dec_str.simps [of n])
  next
    case False
    then show ?thesis
      using "1.IH" digit_char_not_dash [of "n mod 10"] by (simp add: dec_str.simps [of n])
  qed
qed

lemma takeWhile_up_to_first:
  "x \<notin> set xs \<Longrightarrow> takeWhile (\<lambda>c. c \<noteq> x) (xs @ x # ys) = xs"
  by (induction xs) auto

lemma first_occurrence_splits:
  assumes "xs @ x # ys = xs' @ x # ys'" and "x \<notin> set xs" and "x \<notin> set xs'"
  shows "xs = xs' \<and> ys = ys'"
proof -
  have "takeWhile (\<lambda>c. c \<noteq> x) (xs @ x # ys) = xs"
    using assms(2) by (rule takeWhile_up_to_first)
  moreover have "takeWhile (\<lambda>c. c \<noteq> x) (xs' @ x # ys') = xs'"
    using assms(3) by (rule takeWhile_up_to_first)
  ultimately have "xs = xs'"
    using assms(1) by simp
  with assms(1) show ?thesis by simp
qed

lemma last_dash_splits:
  assumes "u1 @ CHR ''-'' # d1 = u2 @ CHR ''-'' # d2"
      and "CHR ''-'' \<notin> set d1" and "CHR ''-'' \<notin> set d2"
  shows "u1 = u2"
proof -
  from assms(1) have "rev (u1 @ CHR ''-'' # d1) = rev (u2 @ CHR ''-'' # d2)"
    by simp
  then have "rev d1 @ CHR ''-'' # rev u1 = rev d2 @ CHR ''-'' # rev u2"
    by simp
  moreover have "CHR ''-'' \<notin> set (rev d1)" and "CHR ''-'' \<notin> set (rev d2)"
    using assms(2,3) by simp_all
  ultimately have "rev d1 = rev d2 \<and> rev u1 = rev u2"
    by (rule first_occurrence_splits)
  then show ?thesis by simp
qed

text \<open>
  Claim C8. Two files with the same original name get different stored names
  whenever their generated tokens differ, whatever the two timestamps are.
\<close>

theorem storage_filename_no_collision:
  assumes "originalname f1 = originalname f2" and "uuid1 \<noteq> uuid2"
  shows "storage_filename uuid1 t1 f1 \<noteq> storage_filename uuid2 t2 f2"
proof
  assume eq: "storage_filename uuid1 t1 f1 = storage_filename uuid2 t2 f2"
  let ?ext = "extname (originalname f2)"
  from eq assms(1)
  have "(uuid1 @ CHR ''-'' # dec_str t1) @ ?ext = (uuid2 @ CHR ''-'' # dec_str t2) @ ?ext"
    by (simp add: storage_filename_def)
  then have "uuid1 @ CHR ''-'' # dec_str t1 = uuid2 @ CHR ''-'' # dec_str t2"
    by (simp only: append_same_eq)
  then have "uuid1 = uuid2"
    by (rule last_dash_splits) (rule dec_str_no_dash)+
  with assms(2) show False by contradiction
qed

text \<open>The same file name uploaded twice under two version-4 tokens.\<close>

theorem storage_filename_no_collision_witness:
  "originalname genuine_png = originalname genuine_png
   \<and> ''1b4e28ba-2fa1-41d2-883f-0016d3cca427'' \<noteq> ''6fa459ea-ee8a-4ca4-894e-db77e160355e''
   \<and> storage_filename ''1b4e28ba-2fa1-41d2-883f-0016d3cca427'' 1700000000000 genuine_png
       \<noteq> storage_filename ''6fa459ea-ee8a-4ca4-894e-db77e160355e'' 1700000000000 genuine_png"
proof -
  have ne: "''1b4e28ba-2fa1-41d2-883f-0016d3cca427'' \<noteq> ''6fa459ea-ee8a-4ca4-894e-db77e160355e''"
    by simp
  from storage_filename_no_collision
         [of genuine_png genuine_png _ _ 1700000000000 1700000000000, OF refl ne] ne
  show ?thesis by simp
qed

section \<open>The parts the stream variant appends\<close>

lemma append_file_stream_shape:
  "append_file_stream fieldName index file formData
     = formData @ append_file_stream fieldName index file []"
  by (simp add: append_file_stream_def split: option.splits)

lemma forEach_file_stream_shape:
  "forEach_file_stream fieldName index fileList formData
     = formData @ forEach_file_stream fieldName index fileList []"
proof (induction fileList arbitrary: index formData)
  case Nil
  then show ?case by simp
next
  case (Cons f rest)
  have "forEach_file_stream fieldName index (f # rest) formData
          = forEach_file_stream fieldName (Suc index) rest
              (formData @ append_file_stream fieldName index f [])"
    using append_file_stream_shape [of fieldName index f formData] by simp
  also have "\<dots> = (formData @ append_file_stream fieldName index f [])
                    @ forEach_file_stream fieldName (Suc index) rest []"
    by (rule Cons.IH)
  also have "\<dots> = formData @ forEach_file_stream fieldName (Suc index) rest
                                 (append_file_stream fieldName index f [])"
    using Cons.IH [of "Suc index" "append_file_stream fieldName index f []"] by simp
  finally show ?case by simp
qed

lemma forEach_file_stream_Cons:
  "forEach_file_stream fieldName index (f # rest) formData
     = formData @ append_file_stream fieldName index f []
         @ forEach_file_stream fieldName (Suc index) rest []"
  using forEach_file_stream_shape [of fieldName "Suc index" rest
          "append_file_stream fieldName index f formData"]
        append_file_stream_shape [of fieldName index f formData]
  by simp

lemma append_files_stream_shape:
  "append_files_stream fs formData = formData @ append_files_stream fs []"
proof (induction fs arbitrary: formData)
  case Nil
  then show ?case by simp
next
  case (Cons entry rest)
  obtain fieldName fileArray where entry: "entry = (fieldName, fileArray)"
    by (cases entry)
  let ?here = "forEach_file_stream fieldName 0 (fileList_of fileArray)"
  have "append_files_stream (entry # rest) formData = append_files_stream rest (?here formData)"
    by (simp add: entry)
  also have "\<dots> = ?here formData @ append_files_stream rest []"
    by (rule Cons.IH)
  also have "\<dots> = formData @ ?here [] @ append_files_stream rest []"
    using forEach_file_stream_shape [of fieldName 0 "fileList_of fileArray" formData] by simp
  also have "\<dots> = formData @ append_files_stream rest (?here [])"
    using Cons.IH [of "?here []"] by simp
  finally show ?case by (simp add: entry)
qed

lemma forEach_file_stream_length:
  "length (forEach_file_stream fieldName index fileList formData)
     = length formData + length (filter (\<lambda>f. temp_path f \<noteq> None) fileList)"
  by (induction fileList arbitrary: index formData)
     (auto simp: append_file_stream_def split: option.splits)

lemma forEach_file_stream_member:
  assumes "i < length fileList" and "temp_path (fileList ! i) = Some p"
  shows "FilePart fieldName p
           (or_default (originalFilename (the (fileList ! i))) (''file-'' @ dec_str (index + i)))
           (or_default (part_mimetype (the (fileList ! i))) ''application/octet-stream'')
         \<in> set (forEach_file_stream fieldName index fileList formData)"
  using assms
proof (induction fileList arbitrary: i index formData)
  case Nil
  then show ?case by simp
next
  case (Cons f rest)
  show ?case
  proof (cases i)
    case 0
    with Cons.prems show ?thesis
      by (simp add: forEach_file_stream_Cons append_file_stream_def
            del: forEach_file_stream.simps)
  next
    case (Suc j)
    with Cons.prems have "j < length rest" and "temp_path (rest ! j) = Some p"
      by simp_all
    from Cons.IH [OF this, of "Suc index" "[]"] Suc show ?thesis
      by (simp add: forEach_file_stream_Cons del: forEach_file_stream.simps)
  qed
qed

text \<open>
  Claim C9. In the stream variant, for the list of files of one field: a file
  at position \<open>i\<close> that has a temp path and no original filename is appended under the
  name \<open>file-i\<close>; one that has no declared type is appended with the type
  \<open>application/octet-stream\<close>; a file with no temp path leaves the body as it was, so
  the loop appends as many parts as there are files with a temp path.
\<close>

theorem relay_file_part_defaults:
  "length (forEach_file_stream fieldName 0 fileList formData)
     = length formData + length (filter (\<lambda>f. temp_path f \<noteq> None) fileList)
   \<and> (\<forall>index f. temp_path f = None \<longrightarrow>
          append_file_stream fieldName index f formData = formData)
   \<and> (\<forall>i f p. i < length fileList \<and> fileList ! i = Some f \<and> temp_path (Some f) = Some p \<longrightarrow>
          (originalFilename f = None \<longrightarrow>
             (\<exists>ctype. FilePart fieldName p (''file-'' @ dec_str i) ctype
                        \<in> set (forEach_file_stream fieldName 0 fileList formData)))
        \<and> (part_mimetype f = None \<longrightarrow>
             (\<exists>name. FilePart fieldName p name ''application/octet-stream''
                        \<in> set (forEach_file_stream fieldName 0 fileList formData))))"
proof (intro conjI allI impI)
  show "length (forEach_file_stream fieldName 0 fileList formData)
          = length formData + length (filter (\<lambda>f. temp_path f \<noteq> None) fileList)"
    by (rule forEach_file_stream_length)
next
  fix index f
  assume "temp_path f = None"
  then show "append_file_stream fieldName index f formData = formData"
    by (simp add: append_file_stream_def)
next
  fix i f p
  assume h: "i < length fileList \<and> fileList ! i = Some f \<and> temp_path (Some f) = Some p"
    and "originalFilename f = None"
  with forEach_file_stream_member [of i fileList p fieldName 0 formData]
  show "\<exists>ctype. FilePart fieldName p (''file-'' @ dec_str i) ctype
                  \<in> set (forEach_file_stream fieldName 0 fileList formData)"
    by auto
next
  fix i f p
  assume h: "i < length fileList \<and> fileList ! i = Some f \<and> temp_path (Some f) = Some p"
    and "part_mimetype f = None"
  with forEach_file_stream_member [of i fileList p fieldName 0 formData]
  show "\<exists>name. FilePart fieldName p name ''application/octet-stream''
                  \<in> set (forEach_file_stream fieldName 0 fileList formData)"
    by auto
qed

text \<open>Three files, the second without a temp path, the third without name and type.\<close>

theorem relay_file_part_defaults_witness:
  "2 < length mixed_list \<and> mixed_list ! 2 = Some nameless_upload
   \<and> temp_path (Some nameless_upload) = Some ''/tmp/upload_c''
   \<and> temp_path (Some pathless_upload) = None
   \<and> length (forEach_file_stream ''images'' 0 mixed_list []) = 2
   \<and> (\<exists>ctype. FilePart ''images'' ''/tmp/upload_c'' ''file-2'' ctype
                 \<in> set (forEach_file_stream ''images'' 0 mixed_list []))
   \<and> (\<exists>name. FilePart ''images'' ''/tmp/upload_c'' name ''application/octet-stream''
                \<in> set (forEach_file_stream ''images'' 0 mixed_list []))"
proof -
  have idx: "2 < length mixed_list \<and> mixed_list ! 2 = Some nameless_upload
             \<and> temp_path (Some nameless_upload) = Some ''/tmp/upload_c''"
    by (simp add: mixed_list_def nameless_upload_def)
  have none: "originalFilename nameless_upload = None" "part_mimetype nameless_upload = None"
    by (simp_all add: nameless_upload_def)
  have skip: "temp_path (Some pathless_upload) = None"
    by (simp add: pathless_upload_def)
  have cnt: "length (filter (\<lambda>f. temp_path f \<noteq> None) mixed_list) = 2"
    by (simp add: mixed_list_def sample_upload_def pathless_upload_def nameless_upload_def)
  have two: "dec_str 2 = ''2''"
    by (simp add: dec_str.simps digit_char_def)
  note th = relay_file_part_defaults [of "''images''" mixed_list "[]"]
  from th have len: "length (forEach_file_stream ''images'' 0 mixed_list []) = 2"
    using cnt by simp
  from th idx none have
    "(\<exists>ctype. FilePart ''images'' ''/tmp/upload_c'' (''file-'' @ dec_str 2) ctype
                 \<in> set (forEach_file_stream ''images'' 0 mixed_list []))
     \<and> (\<exists>name. FilePart ''images'' ''/tmp/upload_c'' name ''application/octet-stream''
                 \<in> set (forEach_file_stream ''images'' 0 mixed_list []))"
    by blast
  with idx skip len two show ?thesis by simp
qed

section \<open>The two variants build the same body\<close>

lemma read_streams_append:
  "read_streams d (xs @ ys) =
     (case read_streams d xs of
        Inl e \<Rightarrow> Inl e
      | Inr a \<Rightarrow> (case read_streams d ys of Inl e \<Rightarrow> Inl e | Inr b \<Rightarrow> Inr (a @ b)))"
proof (induction xs)
  case Nil
  show ?case by (simp split: sum.splits)
next
  case (Cons x xs)
  then show ?case
    by (cases x) (simp_all split: sum.splits)
qed

lemma append_values_read:
  "read_streams d acc_s = Inr acc_b \<Longrightarrow>
     read_streams d (append_values key vals acc_s) = Inr (append_values key vals acc_b)"
  by (induction vals arbitrary: acc_s acc_b) (simp_all add: read_streams_append)

lemma append_field_read:
  "read_streams d acc_s = Inr acc_b \<Longrightarrow>
     read_streams d (append_field acc_s entry) = Inr (append_field acc_b entry)"
proof (cases entry)
  case (Pair key v)
  assume "read_streams d acc_s = Inr acc_b"
  then show ?thesis
    unfolding Pair by (cases v) (simp_all add: append_values_read read_streams_append)
qed

lemma append_fields_read:
  "read_streams d acc_s = Inr acc_b \<Longrightarrow>
     read_streams d (append_fields flds acc_s) = Inr (append_fields flds acc_b)"
  unfolding append_fields_def
  by (induction flds arbitrary: acc_s acc_b) (simp_all add: append_field_read)

lemma blob_typed_append_values:
  "map blob_typed (append_values key vals acc) = append_values key vals (map blob_typed acc)"
  by (induction vals arbitrary: acc) simp_all

lemma blob_typed_append_field:
  "map blob_typed (append_field acc entry) = append_field (map blob_typed acc) entry"
proof (cases entry)
  case (Pair key v)
  show ?thesis
    unfolding Pair by (cases v) (simp_all add: blob_typed_append_values)
qed

lemma blob_typed_append_fields:
  "map blob_typed (append_fields flds acc) = append_fields flds (map blob_typed acc)"
  unfolding append_fields_def
  by (induction flds arbitrary: acc) (simp_all add: blob_typed_append_field)

lemma read_as_blobs_fields:
  "read_as_blobs d (append_fields flds []) = Inr (append_fields flds [])"
proof -
  have "read_streams d (append_fields flds []) = Inr (append_fields flds [])"
    by (rule append_fields_read) simp
  moreover have "map blob_typed (append_fields flds ([] :: blob_formdata)) = append_fields flds []"
    using blob_typed_append_fields [of flds "[] :: blob_formdata"] by simp
  ultimately show ?thesis
    by (simp add: read_as_blobs_def)
qed

lemma read_as_blobs_Inl:
  "read_streams d xs = Inl e \<Longrightarrow> read_as_blobs d (xs @ ys) = Inl e"
  by (simp add: read_as_blobs_def read_streams_append)

lemma for_file_blob_read:
  "read_streams d acc_s = Inr acc_r \<Longrightarrow>
     for_file_blob d fieldName index fileList (map blob_typed acc_r)
       = read_as_blobs d (forEach_file_stream fieldName index fileList acc_s)"
proof (induction fileList arbitrary: index acc_s acc_r)
  case Nil
  then show ?case by (simp add: read_as_blobs_def)
next
  case (Cons f rest)
  show ?case
  proof (cases "temp_path f")
    case None
    with Cons show ?thesis
      by (simp add: append_file_stream_def)
  next
    case (Some p)
    let ?name = "or_default (originalFilename (the f)) (''file-'' @ dec_str index)"
    let ?ctype = "or_default (part_mimetype (the f)) ''application/octet-stream''"
    have stream: "forEach_file_stream fieldName index (f # rest) acc_s
                    = forEach_file_stream fieldName (Suc index) rest
                        (acc_s @ [FilePart fieldName p ?name ?ctype])"
      using Some by (simp add: append_file_stream_def)
    show ?thesis
    proof (cases "readFileSync d p")
      case (Inl e)
      have "read_streams d (acc_s @ [FilePart fieldName p ?name ?ctype]) = Inl e"
        using Inl Cons.prems by (simp add: read_streams_append)
      then have "read_as_blobs d ((acc_s @ [FilePart fieldName p ?name ?ctype])
                   @ forEach_file_stream fieldName (Suc index) rest []) = Inl e"
        by (rule read_as_blobs_Inl)
      then have "read_as_blobs d (forEach_file_stream fieldName (Suc index) rest
                   (acc_s @ [FilePart fieldName p ?name ?ctype])) = Inl e"
        using forEach_file_stream_shape
                [of fieldName "Suc index" rest "acc_s @ [FilePart fieldName p ?name ?ctype]"]
        by simp
      with Some Inl stream show ?thesis by simp
    next
      case (Inr buffer)
      have "read_streams d (acc_s @ [FilePart fieldName p ?name ?ctype])
              = Inr (acc_r @ [FilePart fieldName buffer ?name ?ctype])"
        using Inr Cons.prems by (simp add: read_streams_append)
      from Cons.IH [OF this, of "Suc index"] Some Inr stream show ?thesis by simp
    qed
  qed
qed

lemma append_files_blob_read:
  "read_streams d acc_s = Inr acc_r \<Longrightarrow>
     append_files_blob d fs (map blob_typed acc_r) = read_as_blobs d (append_files_stream fs acc_s)"
proof (induction fs arbitrary: acc_s acc_r)
  case Nil
  then show ?case by (simp add: read_as_blobs_def)
next
  case (Cons entry rest)
  obtain fieldName fileArray where entry: "entry = (fieldName, fileArray)"
    by (cases entry)
  let ?here = "forEach_file_stream fieldName 0 (fileList_of fileArray) acc_s"
  have here: "for_file_blob d fieldName 0 (fileList_of fileArray) (map blob_typed acc_r)
                = read_as_blobs d ?here"
    by (rule for_file_blob_read [OF Cons.prems])
  show ?case
  proof (cases "read_streams d ?here")
    case (Inl e)
    then have "read_as_blobs d (?here @ append_files_stream rest []) = Inl e"
      by (rule read_as_blobs_Inl)
    then have "read_as_blobs d (append_files_stream rest ?here) = Inl e"
      using append_files_stream_shape [of rest ?here] by simp
    with here Inl show ?thesis by (simp add: entry read_as_blobs_def)
  next
    case (Inr here_r)
    from Cons.IH [OF this] here Inr show ?thesis by (simp add: entry read_as_blobs_def)
  qed
qed

lemma build_formdata_blob_read:
  "build_formdata_blob d flds fs = read_as_blobs d (build_formdata_stream flds fs)"
proof -
  have rd: "read_streams d (append_fields flds []) = Inr (append_fields flds [])"
    by (rule append_fields_read) simp
  have "map blob_typed (append_fields flds ([] :: blob_formdata)) = append_fields flds []"
    using blob_typed_append_fields [of flds "[] :: blob_formdata"] by simp
  with append_files_blob_read [OF rd, of fs] show ?thesis
    by (simp add: build_formdata_blob_def build_formdata_stream_def)
qed




lemma sample_stream_body:
  "build_formdata_stream sample_fields sample_files
     = [FieldPart ''title'' ''upload image'',
        FilePart ''images'' ''/tmp/upload_a'' ''logo.png'' ''image/png'']"
  by (simp add: build_formdata_stream_def append_fields_def sample_fields_def sample_files_def
        append_file_stream_def sample_upload_def)

lemma sample_stream_sent:
  "read_streams (tmp edge_start) (build_formdata_stream sample_fields sample_files)
     = Inr [FieldPart ''title'' ''upload image'',
            FilePart ''images'' zero_bytes ''logo.png'' ''image/png'']"
  by (simp add: sample_stream_body edge_start_def disk_with_def readFileSync_def)

lemma blob_type_png: "blob_type ''image/png'' = ''image/png''"
  by (simp add: blob_type_def printable_def ascii_lower_def)

lemma sample_blob_body:
  "build_formdata_blob (tmp edge_start) sample_fields sample_files
     = Inr [FieldPart ''title'' ''upload image'',
            FilePart ''images'' zero_bytes ''logo.png'' ''image/png'']"
  by (simp add: build_formdata_blob_read read_as_blobs_def sample_stream_sent blob_type_png)



section \<open>What the edge answers\<close>

lemma cleanup_file_sent: "sent (cleanup_file f st) = sent st"
  by (simp add: cleanup_file_def split: option.splits sum.splits)

lemma cleanupTempFiles_sent: "sent (cleanupTempFiles tempFiles st) = sent st"
  by (induction tempFiles arbitrary: st) (simp_all add: cleanup_file_sent)

lemma handler_stream_POST:
  assumes "read_streams (tmp st) (build_formdata_stream flds fs) = Inr payload"
  shows "handler_stream ''POST'' (Inr (flds, fs)) be st =
           (case forward_response (be payload) st of
              (Normal, st') \<Rightarrow> cleanupTempFiles (parsedFiles fs) st'
            | (Raised e, st') \<Rightarrow>
                respond 500 (FailureBody ''Failed to process form data'' (Some (error_message e))) st')"
  using assms
  by (simp add: handler_stream_def createFormDataMiddleware_stream_def next_stream_def
        fetch_stream_def middleware_catch_def Let_def split: prod.splits outcome.splits)

lemma handler_blob_POST:
  assumes "build_formdata_blob (tmp st) flds fs = Inr blob_payload"
  shows "handler_blob ''POST'' (Inr (flds, fs)) be st =
           (case forward_response (be blob_payload) st of
              (Normal, st') \<Rightarrow> cleanupTempFiles (parsedFiles fs) st'
            | (Raised e, st') \<Rightarrow>
                cleanupTempFiles (parsedFiles fs) (internal_server_error e st'))"
  using assms
  by (simp add: handler_blob_def createFormDataMiddleware_blob_def next_blob_def
        split: prod.splits outcome.splits)

text \<open>
  Claim C7. For a relay request (method POST, body parsed, body built and
  sent to the backend), with either handler and the body of its own variant: when the
  backend answers with a status from 200 to 299 and a JSON body, the edge sends exactly one
  response, status 200 with that JSON unchanged; when the call is rejected or the status
  is outside 200 to 299, the edge sends exactly one response, status 500 with a failure
  body (\<open>success = false\<close>, a fixed message, the error text).
\<close>

theorem relay_status_mapping:
  assumes "read_streams (tmp st) (build_formdata_stream flds fs) = Inr payload"
      and "build_formdata_blob (tmp st) flds fs = Inr blob_payload"
  shows "(\<forall>code json. be payload = FetchResponse code (Some json) \<and> response_ok code \<longrightarrow>
            sent (handler_stream ''POST'' (Inr (flds, fs)) be st)
              = sent st @ [\<lparr>e_status = 200, e_body = BackendJson json\<rparr>])
       \<and> (\<forall>code json. be blob_payload = FetchResponse code (Some json) \<and> response_ok code \<longrightarrow>
            sent (handler_blob ''POST'' (Inr (flds, fs)) be st)
              = sent st @ [\<lparr>e_status = 200, e_body = BackendJson json\<rparr>])
       \<and> (\<forall>e. be payload = FetchRejected e \<longrightarrow>
            sent (handler_stream ''POST'' (Inr (flds, fs)) be st)
              = sent st @ [\<lparr>e_status = 500,
                             e_body = FailureBody ''Failed to process form data''
                                        (Some (error_message e))\<rparr>])
       \<and> (\<forall>e. be blob_payload = FetchRejected e \<longrightarrow>
            sent (handler_blob ''POST'' (Inr (flds, fs)) be st)
              = sent st @ [\<lparr>e_status = 500,
                             e_body = FailureBody ''Internal server error''
                                        (Some (error_message e))\<rparr>])
       \<and> (\<forall>code body. be payload = FetchResponse code body \<and> \<not> response_ok code \<longrightarrow>
            sent (handler_stream ''POST'' (Inr (flds, fs)) be st)
              = sent st @ [\<lparr>e_status = 500,
                             e_body = FailureBody ''Failed to process form data''
                                        (Some (''Backend responded with status: '' @ dec_str code))\<rparr>])
       \<and> (\<forall>code body. be blob_payload = FetchResponse code body \<and> \<not> response_ok code \<longrightarrow>
            sent (handler_blob ''POST'' (Inr (flds, fs)) be st)
              = sent st @ [\<lparr>e_status = 500,
                             e_body = FailureBody ''Internal server error''
                                        (Some (''Backend responded with status: '' @ dec_str code))\<rparr>])"
proof (intro conjI allI impI)
  fix code json
  assume "be payload = FetchResponse code (Some json) \<and> response_ok code"
  then have fw: "forward_response (be payload) st = (Normal, respond 200 (BackendJson json) st)"
    by (simp add: forward_response_def)
  show "sent (handler_stream ''POST'' (Inr (flds, fs)) be st)
          = sent st @ [\<lparr>e_status = 200, e_body = BackendJson json\<rparr>]"
    by (simp add: handler_stream_POST [OF assms(1)] fw cleanupTempFiles_sent respond_def)
next
  fix code json
  assume "be blob_payload = FetchResponse code (Some json) \<and> response_ok code"
  then have fw: "forward_response (be blob_payload) st
                   = (Normal, respond 200 (BackendJson json) st)"
    by (simp add: forward_response_def)
  show "sent (handler_blob ''POST'' (Inr (flds, fs)) be st)
          = sent st @ [\<lparr>e_status = 200, e_body = BackendJson json\<rparr>]"
    by (simp add: handler_blob_POST [OF assms(2)] fw cleanupTempFiles_sent respond_def)
next
  fix e
  assume "be payload = FetchRejected e"
  then have fw: "forward_response (be payload) st = (Raised e, st)"
    by (simp add: forward_response_def)
  show "sent (handler_stream ''POST'' (Inr (flds, fs)) be st)
          = sent st @ [\<lparr>e_status = 500,
                         e_body = FailureBody ''Failed to process form data''
                                    (Some (error_message e))\<rparr>]"
    by (simp add: handler_stream_POST [OF assms(1)] fw respond_def)
next
  fix e
  assume "be blob_payload = FetchRejected e"
  then have fw: "forward_response (be blob_payload) st = (Raised e, st)"
    by (simp add: forward_response_def)
  show "sent (handler_blob ''POST'' (Inr (flds, fs)) be st)
          = sent st @ [\<lparr>e_status = 500,
                         e_body = FailureBody ''Internal server error''
                                    (Some (error_message e))\<rparr>]"
    by (simp add: handler_blob_POST [OF assms(2)] fw cleanupTempFiles_sent respond_def
          internal_server_error_def)
next
  fix code body
  assume "be payload = FetchResponse code body \<and> \<not> response_ok code"
  then have fw: "forward_response (be payload) st
                   = (Raised (Error (''Backend responded with status: '' @ dec_str code)), st)"
    by (simp add: forward_response_def)
  show "sent (handler_stream ''POST'' (Inr (flds, fs)) be st)
          = sent st @ [\<lparr>e_status = 500,
                         e_body = FailureBody ''Failed to process form data''
                                    (Some (''Backend responded with status: '' @ dec_str code))\<rparr>]"
    by (simp add: handler_stream_POST [OF assms(1)] fw respond_def)
next
  fix code body
  assume "be blob_payload = FetchResponse code body \<and> \<not> response_ok code"
  then have fw: "forward_response (be blob_payload) st
                   = (Raised (Error (''Backend responded with status: '' @ dec_str code)), st)"
    by (simp add: forward_response_def)
  show "sent (handler_blob ''POST'' (Inr (flds, fs)) be st)
          = sent st @ [\<lparr>e_status = 500,
                         e_body = FailureBody ''Internal server error''
                                    (Some (''Backend responded with status: '' @ dec_str code))\<rparr>]"
    by (simp add: handler_blob_POST [OF assms(2)] fw cleanupTempFiles_sent respond_def
          internal_server_error_def)
qed

lemma dec_str_400: "dec_str 400 = ''400''"
  by (simp add: dec_str.simps digit_char_def)

text \<open>A backend that answers 200 and one that answers 400, through both handlers.\<close>

theorem relay_status_mapping_witness:
  "read_streams (tmp edge_start) (build_formdata_stream sample_fields sample_files)
     = Inr [FieldPart ''title'' ''upload image'',
            FilePart ''images'' zero_bytes ''logo.png'' ''image/png'']
   \<and> build_formdata_blob (tmp edge_start) sample_fields sample_files
       = Inr [FieldPart ''title'' ''upload image'',
              FilePart ''images'' zero_bytes ''logo.png'' ''image/png'']
   \<and> response_ok 200 \<and> \<not> response_ok 400
   \<and> sent (handler_stream ''POST'' (Inr (sample_fields, sample_files)) backend_200 edge_start)
       = [\<lparr>e_status = 200, e_body = BackendJson ''{success: true}''\<rparr>]
   \<and> sent (handler_blob ''POST'' (Inr (sample_fields, sample_files)) backend_200 edge_start)
       = [\<lparr>e_status = 200, e_body = BackendJson ''{success: true}''\<rparr>]
   \<and> sent (handler_stream ''POST'' (Inr (sample_fields, sample_files)) backend_400 edge_start)
       = [\<lparr>e_status = 500,
           e_body = FailureBody ''Failed to process form data''
                      (Some ''Backend responded with status: 400'')\<rparr>]
   \<and> sent (handler_blob ''POST'' (Inr (sample_fields, sample_files)) backend_400 edge_start)
       = [\<lparr>e_status = 500,
           e_body = FailureBody ''Internal server error''
                      (Some ''Backend responded with status: 400'')\<rparr>]"
proof -
  have ok: "response_ok 200" and bad: "\<not> response_ok 400"
    by (simp_all add: response_ok_def)
  have start: "sent edge_start = []"
    by (simp add: edge_start_def)
  note good = relay_status_mapping [OF sample_stream_sent sample_blob_body, of backend_200]
  note fail = relay_status_mapping [OF sample_stream_sent sample_blob_body, of backend_400]
  from good ok start
  have "sent (handler_stream ''POST'' (Inr (sample_fields, sample_files)) backend_200 edge_start)
          = [\<lparr>e_status = 200, e_body = BackendJson ''{success: true}''\<rparr>]
        \<and> sent (handler_blob ''POST'' (Inr (sample_fields, sample_files)) backend_200 edge_start)
          = [\<lparr>e_status = 200, e_body = BackendJson ''{success: true}''\<rparr>]"
    by (simp add: backend_200_def)
  moreover from fail bad start
  have "sent (handler_stream ''POST'' (Inr (sample_fields, sample_files)) backend_400 edge_start)
          = [\<lparr>e_status = 500,
              e_body = FailureBody ''Failed to process form data''
                         (Some (''Backend responded with status: '' @ dec_str 400))\<rparr>]
        \<and> sent (handler_blob ''POST'' (Inr (sample_fields, sample_files)) backend_400 edge_start)
          = [\<lparr>e_status = 500,
              e_body = FailureBody ''Internal server error''
                         (Some (''Backend responded with status: '' @ dec_str 400))\<rparr>]"
    by (simp add: backend_400_def)
  ultimately show ?thesis
    using sample_stream_sent sample_blob_body ok bad by (simp add: dec_str_400)
qed

section \<open>Temp files after the relay\<close>

lemma sample_parsedFiles: "parsedFiles sample_files = [sample_upload]"
  by (simp add: parsedFiles_def sample_files_def)

text \<open>
  The cleanup removes every temp file whose removal does not fail, and the stream variant
  reaches it when the relay succeeds.
\<close>

text \<open>
  The cleanup removes every temp file whose removal does not fail, and the stream variant
  reaches it when the relay succeeds.
\<close>

lemma cleanup_file_keeps_absent:
  "tmp st q = None \<Longrightarrow> tmp (cleanup_file g st) q = None"
  by (auto simp: cleanup_file_def dest!: unlinkSync_result split: option.splits sum.splits)

lemma cleanup_file_shrinks:
  "tmp (cleanup_file g st) q = Some n \<Longrightarrow> tmp st q = Some n"
  by (auto simp: cleanup_file_def dest!: unlinkSync_result split: option.splits sum.splits if_splits)

lemma cleanup_file_removes:
  assumes "temp_path g = Some p" and "\<And>n. tmp st p = Some n \<Longrightarrow> \<not> unlink_fails n"
  shows "tmp (cleanup_file g st) p = None"
proof (cases "tmp st p")
  case None
  then show ?thesis by (rule cleanup_file_keeps_absent)
next
  case (Some n)
  with assms(2) have "unlinkSync (tmp st) p = Inr ((tmp st)(p := None))"
    by (simp add: unlinkSync_def)
  with assms(1) show ?thesis by (simp add: cleanup_file_def)
qed

lemma cleanupTempFiles_keeps_absent:
  "tmp st q = None \<Longrightarrow> tmp (cleanupTempFiles tempFiles st) q = None"
  by (induction tempFiles arbitrary: st) (simp_all add: cleanup_file_keeps_absent)

lemma cleanupTempFiles_removes:
  assumes "f \<in> set tempFiles" and "temp_path (Some f) = Some p"
      and "\<And>n. tmp st p = Some n \<Longrightarrow> \<not> unlink_fails n"
  shows "tmp (cleanupTempFiles tempFiles st) p = None"
  using assms
proof (induction tempFiles arbitrary: st)
  case Nil
  then show ?case by simp
next
  case (Cons g rest)
  show ?case
  proof (cases "f = g")
    case True
    with Cons.prems have "tmp (cleanup_file (Some g) st) p = None"
      by (auto intro: cleanup_file_removes)
    then show ?thesis
      by (simp add: cleanupTempFiles_keeps_absent)
  next
    case False
    with Cons.prems have mem: "f \<in> set rest" by simp
    have "\<not> unlink_fails n" if "tmp (cleanup_file (Some g) st) p = Some n" for n
      using cleanup_file_shrinks [OF that] Cons.prems(3) by blast
    from Cons.IH [OF mem Cons.prems(2) this] show ?thesis by simp
  qed
qed

lemma successful_relay_removes_temp_files:
  assumes "read_streams (tmp st) (build_formdata_stream flds fs) = Inr payload"
      and "be payload = FetchResponse code (Some json)" and "response_ok code"
      and "f \<in> set (parsedFiles fs)" and "temp_path (Some f) = Some p"
      and "\<And>n. tmp st p = Some n \<Longrightarrow> \<not> unlink_fails n"
  shows "tmp (handler_stream ''POST'' (Inr (flds, fs)) be st) p = None"
proof -
  let ?st' = "respond 200 (BackendJson json) st"
  have "handler_stream ''POST'' (Inr (flds, fs)) be st = cleanupTempFiles (parsedFiles fs) ?st'"
    using assms(2,3) by (simp add: handler_stream_POST [OF assms(1)] forward_response_def)
  moreover have "tmp ?st' = tmp st"
    by (simp add: respond_def)
  ultimately show ?thesis
    using cleanupTempFiles_removes [OF assms(4,5), of ?st'] assms(6) by simp
qed

text \<open>
  Claim C2. The stream variant with its handler leaves the temp file on disk
  when the relay fails: the callback throws on a backend status that is not OK, the
  middleware's \<open>catch\<close> answers 500 and calls no cleanup. On the same request the temp
  file is removed when the backend answers 200, and the other handler, whose callback
  catches the error itself, removes it after a failed relay too.
\<close>

theorem failed_relay_leaves_temp_file:
  "tmp (handler_stream ''POST'' (Inr (sample_fields, sample_files)) backend_400 edge_start)
       ''/tmp/upload_a'' \<noteq> None
   \<and> sent (handler_stream ''POST'' (Inr (sample_fields, sample_files)) backend_400 edge_start)
       = [\<lparr>e_status = 500,
           e_body = FailureBody ''Failed to process form data''
                      (Some ''Backend responded with status: 400'')\<rparr>]
   \<and> tmp (handler_stream ''POST'' (Inr (sample_fields, sample_files)) backend_200 edge_start)
       ''/tmp/upload_a'' = None
   \<and> tmp (handler_blob ''POST'' (Inr (sample_fields, sample_files)) backend_400 edge_start)
       ''/tmp/upload_a'' = None"
proof -
  have fw400: "forward_response (backend_400 body) edge_start
                 = (Raised (Error ''Backend responded with status: 400''), edge_start)" for body
    by (simp add: forward_response_def backend_400_def response_ok_def dec_str_400)
  have fw200: "forward_response (backend_200 body) edge_start
                 = (Normal, respond 200 (BackendJson ''{success: true}'') edge_start)" for body
    by (simp add: forward_response_def backend_200_def response_ok_def)
  have clean: "tmp (cleanupTempFiles [sample_upload] st) ''/tmp/upload_a'' = None"
    if "tmp st = tmp edge_start" for st
    using that
    by (simp add: cleanup_file_def sample_upload_def unlinkSync_def edge_start_def disk_with_def)
  have kept: "tmp edge_start ''/tmp/upload_a'' \<noteq> None"
    by (simp add: edge_start_def disk_with_def)
  have "handler_stream ''POST'' (Inr (sample_fields, sample_files)) backend_400 edge_start
          = respond 500 (FailureBody ''Failed to process form data''
                           (Some ''Backend responded with status: 400'')) edge_start"
    by (simp add: handler_stream_POST [OF sample_stream_sent] fw400)
  then have a: "tmp (handler_stream ''POST'' (Inr (sample_fields, sample_files)) backend_400 edge_start)
                  ''/tmp/upload_a'' \<noteq> None"
    and b: "sent (handler_stream ''POST'' (Inr (sample_fields, sample_files)) backend_400 edge_start)
              = [\<lparr>e_status = 500,
                  e_body = FailureBody ''Failed to process form data''
                             (Some ''Backend responded with status: 400'')\<rparr>]"
    using kept by (simp_all add: respond_def edge_start_def)
  have "handler_stream ''POST'' (Inr (sample_fields, sample_files)) backend_200 edge_start
          = cleanupTempFiles [sample_upload]
              (respond 200 (BackendJson ''{success: true}'') edge_start)"
    by (simp add: handler_stream_POST [OF sample_stream_sent] fw200 sample_parsedFiles
          del: cleanupTempFiles.simps)
  then have c: "tmp (handler_stream ''POST'' (Inr (sample_fields, sample_files)) backend_200 edge_start)
             ''/tmp/upload_a'' = None"
    using clean [of "respond 200 (BackendJson ''{success: true}'') edge_start"]
    by (simp add: respond_def del: cleanupTempFiles.simps)
  have "handler_blob ''POST'' (Inr (sample_fields, sample_files)) backend_400 edge_start
          = cleanupTempFiles [sample_upload]
              (internal_server_error (Error ''Backend responded with status: 400'') edge_start)"
    by (simp add: handler_blob_POST [OF sample_blob_body] fw400 sample_parsedFiles
          del: cleanupTempFiles.simps)
  then have d: "tmp (handler_blob ''POST'' (Inr (sample_fields, sample_files)) backend_400 edge_start)
             ''/tmp/upload_a'' = None"
    using clean [of "internal_server_error (Error ''Backend responded with status: 400'') edge_start"]
    by (simp add: internal_server_error_def respond_def del: cleanupTempFiles.simps)
  from a b c d show ?thesis by blast
qed

end
